theory Spec2Isabelle
  imports Complex_Main "HOL-Library.Multiset" "HOL-Library.Sublist"
begin

section \<open>Severity (src/lib/severity.ts, src/types.ts)\<close>

datatype Severity = SevNone | Watch | Risk | Critical

datatype IncidentType = FALL | INACTIVITY

fun severityRank :: "Severity \<Rightarrow> int" where
  "severityRank Critical = 3"
| "severityRank Risk = 2"
| "severityRank Watch = 1"
| "severityRank SevNone = 0"

section \<open>Numbers (IEEE 754 doubles)\<close>

text \<open>
  A JavaScript number is modelled by the rational it denotes. Every arithmetic operation
  of the source on numbers rounds its exact result to the nearest double, ties to the even
  mantissa (\<open>rnd\<close>), and a decimal literal of the source denotes the double nearest to
  it (\<open>lit\<close>). Numbers too large or too small for the normal range of doubles, infinities
  and \<open>NaN\<close> are outside this model; where the source can produce them, the model says
  so at that place. Timestamps read from \<open>Date.now()\<close> are integers (milliseconds).
\<close>

text \<open>The number of binary digits of a natural number.\<close>

fun bits :: "nat \<Rightarrow> nat" where
  "bits n = (if n = 0 then 0 else Suc (bits (n div 2)))"

declare bits.simps [simp del]

text \<open>The exponent \<open>e\<close> with \<open>2^e \<le> x < 2^(e+1)\<close>, for positive \<open>x\<close>.\<close>

definition ilog2 :: "rat \<Rightarrow> int" where
  "ilog2 x = (if 1 \<le> x then int (bits (nat \<lfloor>x\<rfloor>)) - 1 else - int (bits (nat \<lceil>1 / x\<rceil> - 1)))"

definition pow2 :: "int \<Rightarrow> rat" where
  "pow2 e = 2 powi e"

text \<open>Rounding to the nearest integer, a tie to the even one.\<close>

definition ties_even :: "rat \<Rightarrow> int" where
  "ties_even m =
     (let f = \<lfloor>m\<rfloor> in
      if m - of_int f < 1 / 2 then f
      else if 1 / 2 < m - of_int f then f + 1
      else if even f then f else f + 1)"

text \<open>Rounding to 53 significant binary digits.\<close>

definition rnd :: "rat \<Rightarrow> rat" where
  "rnd x =
     (if x = 0 then 0
      else let u = pow2 (ilog2 \<bar>x\<bar> - 52)
           in sgn x * of_int (ties_even (\<bar>x\<bar> / u)) * u)"

definition lit :: "rat \<Rightarrow> rat" where
  "lit q = rnd q"

definition fadd :: "rat \<Rightarrow> rat \<Rightarrow> rat" where
  "fadd a b = rnd (a + b)"

definition fsub :: "rat \<Rightarrow> rat \<Rightarrow> rat" where
  "fsub a b = rnd (a - b)"

definition fmul :: "rat \<Rightarrow> rat \<Rightarrow> rat" where
  "fmul a b = rnd (a * b)"

definition fdiv :: "rat \<Rightarrow> rat \<Rightarrow> rat" where
  "fdiv a b = rnd (a / b)"

lemma bits_bounds: "0 < n \<Longrightarrow> 2 ^ (bits n - 1) \<le> n \<and> n < 2 ^ bits n"
proof (induction n rule: bits.induct)
  case (1 n)
  show ?case
  proof (cases "n div 2 = 0")
    case True
    with "1.prems" have "n = 1" by (simp add: div_eq_0_iff) 
    then show ?thesis by (simp add: bits.simps [of "Suc 0"] bits.simps [of 0])
  next
    case False
    with "1.IH" "1.prems" have ih: "2 ^ (bits (n div 2) - 1) \<le> n div 2" "n div 2 < 2 ^ bits (n div 2)"
      by simp_all
    have b: "bits n = Suc (bits (n div 2))" using "1.prems" by (simp add: bits.simps [of n])
    have pos: "0 < bits (n div 2)" using False by (simp add: bits.simps [of "n div 2"])
    then have s: "2 ^ bits (n div 2) = 2 * (2::nat) ^ (bits (n div 2) - 1)"
      by (cases "bits (n div 2)") simp_all
    from ih s show ?thesis unfolding b by simp linarith
  qed
qed

lemma pow2_pos: "0 < pow2 e"
  by (simp add: pow2_def)

lemma pow2_ilog2_le: assumes "0 < x" shows "pow2 (ilog2 x) \<le> x"
proof (cases "1 \<le> x")
  case True
  then have n: "0 < nat \<lfloor>x\<rfloor>" by simp
  define k where "k = bits (nat \<lfloor>x\<rfloor>)"
  from bits_bounds [OF n] have "(2::nat) ^ (k - 1) \<le> nat \<lfloor>x\<rfloor>" by (simp add: k_def)
  then have "(of_nat ((2::nat) ^ (k - 1)) :: rat) \<le> of_nat (nat \<lfloor>x\<rfloor>)"
    by (simp only: of_nat_le_iff)
  also have "\<dots> \<le> x" using True by simp
  finally have le: "(2::rat) ^ (k - 1) \<le> x" by simp
  have "0 < k" using n by (simp add: k_def bits.simps [of "nat \<lfloor>x\<rfloor>"])
  then have "int k - 1 = int (k - 1)" by simp
  then have "pow2 (int k - 1) = 2 ^ (k - 1)" by (simp only: pow2_def power_int_of_nat)
  with le True show ?thesis by (simp add: ilog2_def k_def)
next
  case False
  with assms have y: "1 < 1 / x" by simp
  define c where "c = nat \<lceil>1 / x\<rceil>"
  define k where "k = bits (c - 1)"
  have "2 \<le> \<lceil>1 / x\<rceil>" using y by linarith
  then have c2: "2 \<le> c" unfolding c_def by linarith
  then have n: "0 < c - 1" by simp
  from bits_bounds [OF n] have "c - 1 < 2 ^ k" by (simp add: k_def)
  with c2 have "c \<le> 2 ^ k" by simp
  then have "(of_nat c :: rat) \<le> of_nat (2 ^ k)" by (simp only: of_nat_le_iff)
  then have ck: "(of_nat c :: rat) \<le> 2 ^ k" by simp
  have "1 / x \<le> of_int \<lceil>1 / x\<rceil>" by (rule le_of_int_ceiling)
  also have "\<dots> = of_nat c" using c2 unfolding c_def by simp
  finally have "1 / x \<le> of_nat c" .
  then have "1 / x \<le> 2 ^ k" using ck by (rule order_trans)
  with assms have "1 / 2 ^ k \<le> x"
    by (simp add: field_simps)
  moreover have "pow2 (- int k) = 1 / 2 ^ k"
    by (simp add: pow2_def power_int_minus_divide)
  ultimately show ?thesis using False
    by (simp add: ilog2_def c_def k_def)
qed

lemma ties_even_ge: "\<lfloor>m\<rfloor> \<le> ties_even m"
  by (simp add: ties_even_def Let_def)

lemma rnd_pos: assumes "0 < x" shows "0 < rnd x"
proof -
  define u where "u = pow2 (ilog2 \<bar>x\<bar> - 52)"
  have u: "0 < u" unfolding u_def by (rule pow2_pos)
  have "u = pow2 (ilog2 \<bar>x\<bar>) / 2 ^ 52"
    unfolding u_def pow2_def by (simp add: power_int_diff)
  also have "\<dots> \<le> pow2 (ilog2 \<bar>x\<bar>)"
    using pow2_pos [of "ilog2 \<bar>x\<bar>"] by simp
  also have "\<dots> \<le> x" using pow2_ilog2_le [of "\<bar>x\<bar>"] assms by simp
  finally have "1 \<le> \<bar>x\<bar> / u" using u assms by (simp add: field_simps)
  then have "1 \<le> \<lfloor>\<bar>x\<bar> / u\<rfloor>" by simp
  with ties_even_ge [of "\<bar>x\<bar> / u"] have "0 < ties_even (\<bar>x\<bar> / u)" by linarith
  then have "0 < (of_int (ties_even (\<bar>x\<bar> / u)) :: rat) * u" using u by simp
  moreover have "rnd x = of_int (ties_even (\<bar>x\<bar> / u)) * u"
    using assms by (simp add: rnd_def Let_def u_def)
  ultimately show ?thesis by simp
qed

lemma rnd_minus: "rnd (- x) = - rnd x"
  by (simp add: rnd_def Let_def)

lemma rnd_0 [simp]: "rnd 0 = 0"
  by (simp add: rnd_def)

lemma rnd_neg: "x < 0 \<Longrightarrow> rnd x < 0"
  using rnd_pos [of "- x"] by (simp add: rnd_minus)

lemma rnd_le_0_iff: "rnd x \<le> 0 \<longleftrightarrow> x \<le> 0"
proof (cases "x \<le> 0")
  case True
  then show ?thesis using rnd_neg [of x] by (cases "x = 0") auto
next
  case False
  then show ?thesis using rnd_pos [of x] by auto
qed

text \<open>The same rounding on a fraction of integers, by integer division.\<close>

definition ties_even_div :: "int \<Rightarrow> int \<Rightarrow> int" where
  "ties_even_div n d =
     (if 2 * (n mod d) < d then n div d
      else if d < 2 * (n mod d) then n div d + 1
      else if even (n div d) then n div d else n div d + 1)"

lemma ties_even_frac:
  assumes "0 < d"
  shows "ties_even (of_int n / of_int d) = ties_even_div n d"
proof -
  have f: "\<lfloor>(of_int n :: rat) / of_int d\<rfloor> = n div d"
    by (rule floor_divide_of_int_eq)
  have "(of_int n :: rat) = of_int (n div d * d + n mod d)" by simp
  also have "\<dots> = of_int (n div d) * of_int d + of_int (n mod d)"
    by (simp only: of_int_add of_int_mult)
  finally have "(of_int n :: rat) / of_int d - of_int (n div d) = of_int (n mod d) / of_int d"
    using assms by (simp add: field_simps)
  then have r: "(of_int n :: rat) / of_int d - of_int \<lfloor>(of_int n :: rat) / of_int d\<rfloor>
      = of_int (n mod d) / of_int d"
    by (simp only: f)
  have lt: "(of_int (n mod d) :: rat) / of_int d < 1 / 2 \<longleftrightarrow> 2 * (n mod d) < d"
  proof -
    have "(of_int (n mod d) :: rat) / of_int d < 1 / 2 \<longleftrightarrow> (of_int (2 * (n mod d)) :: rat) < of_int d"
      using assms by (simp add: field_simps)
    then show ?thesis by (simp only: of_int_less_iff)
  qed
  have gt: "1 / 2 < (of_int (n mod d) :: rat) / of_int d \<longleftrightarrow> d < 2 * (n mod d)"
  proof -
    have "1 / 2 < (of_int (n mod d) :: rat) / of_int d \<longleftrightarrow> (of_int d :: rat) < of_int (2 * (n mod d))"
      using assms by (simp add: field_simps)
    then show ?thesis by (simp only: of_int_less_iff)
  qed
  show ?thesis
    unfolding ties_even_def Let_def r
    by (simp only: lt gt f ties_even_div_def)
qed

definition ilog2_frac :: "int \<Rightarrow> int \<Rightarrow> int" where
  "ilog2_frac p q =
     (if q \<le> p then int (bits (nat (p div q))) - 1
      else - int (bits (nat (- ((- q) div p)) - 1)))"

lemma ilog2_frac:
  assumes "0 < p" "0 < q"
  shows "ilog2 (of_int p / of_int q) = ilog2_frac p q"
proof -
  have a: "(1::rat) \<le> of_int p / of_int q \<longleftrightarrow> q \<le> p"
    using assms by (simp add: field_simps)
  have b: "\<lfloor>(of_int p :: rat) / of_int q\<rfloor> = p div q"
    by (rule floor_divide_of_int_eq)
  have "1 / ((of_int p :: rat) / of_int q) = of_int q / of_int p" by simp
  moreover have "\<lceil>(of_int q :: rat) / of_int p\<rceil> = - ((- q) div p)"
    by (simp add: ceiling_def flip: floor_divide_of_int_eq [where ?'a = rat])
  ultimately have c: "\<lceil>1 / ((of_int p :: rat) / of_int q)\<rceil> = - ((- q) div p)" by simp
  show ?thesis
    unfolding ilog2_def ilog2_frac_def a b c ..
qed

definition rnd_frac :: "int \<Rightarrow> int \<Rightarrow> rat" where
  "rnd_frac p q =
     (let e = ilog2_frac p q in
      if e \<le> 52 then of_int (ties_even_div (p * 2 ^ nat (52 - e)) q) / 2 ^ nat (52 - e)
      else of_int (ties_even_div p (q * 2 ^ nat (e - 52))) * 2 ^ nat (e - 52))"

lemma rnd_frac:
  assumes "0 < p" "0 < q"
  shows "rnd (of_int p / of_int q) = rnd_frac p q"
proof -
  let ?x = "(of_int p :: rat) / of_int q"
  have x: "0 < ?x" using assms by simp
  define e where "e = ilog2_frac p q"
  have ax: "\<bar>?x\<bar> = ?x" using x by (simp only: abs_of_pos)
  have e': "ilog2 ?x = e" using ilog2_frac [OF assms] by (simp only: e_def)
  have nz: "(?x = 0) = False" using x by auto
  have sg: "sgn ?x = 1" using x by (rule sgn_pos)
  have r: "rnd ?x = of_int (ties_even (?x / pow2 (e - 52))) * pow2 (e - 52)"
    unfolding rnd_def [of ?x] Let_def
    by (simp only: nz if_False ax e' sg mult_1_left)
  show ?thesis
  proof (cases "e \<le> 52")
    case True
    define k where "k = nat (52 - e)"
    have "e - 52 = - int k" using True by (simp add: k_def)
    then have u: "pow2 (e - 52) = 1 / 2 ^ k"
      by (simp add: pow2_def power_int_minus_divide)
    have eq: "?x / pow2 (e - 52) = of_int (p * 2 ^ k) / of_int q"
      by (simp add: u)
    have "ties_even (?x / pow2 (e - 52)) = ties_even (of_int (p * 2 ^ k) / of_int q)"
      by (simp only: eq)
    also have "\<dots> = ties_even_div (p * 2 ^ k) q"
      by (rule ties_even_frac [OF assms(2)])
    finally have "rnd ?x = of_int (ties_even_div (p * 2 ^ k) q) / 2 ^ k"
      unfolding r u by simp
    with True show ?thesis
      by (simp add: rnd_frac_def e_def [symmetric] k_def)
  next
    case False
    define k where "k = nat (e - 52)"
    have "e - 52 = int k" using False by (simp add: k_def)
    then have u: "pow2 (e - 52) = 2 ^ k"
      by (simp add: pow2_def)
    have eq: "?x / pow2 (e - 52) = of_int p / of_int (q * 2 ^ k)"
      by (simp add: u)
    have qk: "0 < q * 2 ^ k" using assms by simp
    have "ties_even (?x / pow2 (e - 52)) = ties_even (of_int p / of_int (q * 2 ^ k))"
      by (simp only: eq)
    also have "\<dots> = ties_even_div p (q * 2 ^ k)"
      by (rule ties_even_frac [OF qk])
    finally have "rnd ?x = of_int (ties_even_div p (q * 2 ^ k)) * 2 ^ k"
      unfolding r u by simp
    with False show ?thesis
      by (simp add: rnd_frac_def e_def [symmetric] k_def)
  qed
qed

lemma rnd_numeral_divide: "rnd (numeral a / numeral b) = rnd_frac (numeral a) (numeral b)"
  using rnd_frac [of "numeral a" "numeral b"] by simp

lemma rnd_numeral: "rnd (numeral a) = rnd_frac (numeral a) 1"
  using rnd_frac [of "numeral a" 1] by simp

lemma rnd_1: "rnd 1 = 1"
  using rnd_frac [of 1 1]
  by (simp add: rnd_frac_def ilog2_frac_def ties_even_div_def bits.simps [of "Suc 0"] bits.simps [of 0])

lemma rnd_one_divide: "rnd (1 / numeral b) = rnd_frac 1 (numeral b)"
  using rnd_frac [of 1 "numeral b"] by simp

lemma floor_rat_numeral_divide:
  "\<lfloor>(numeral a :: rat) / numeral b\<rfloor> = numeral a div numeral b"
  "\<lfloor>(1 :: rat) / numeral b\<rfloor> = 1 div numeral b"
  "\<lfloor>- ((numeral a :: rat) / numeral b)\<rfloor> = (- numeral a) div numeral b"
  "\<lfloor>- ((1 :: rat) / numeral b)\<rfloor> = (- 1) div numeral b"
  using floor_divide_of_int_eq [of "numeral a" "numeral b", where ?'a = rat]
    floor_divide_of_int_eq [of 1 "numeral b", where ?'a = rat]
    floor_divide_of_int_eq [of "- numeral a" "numeral b", where ?'a = rat]
    floor_divide_of_int_eq [of "- 1" "numeral b", where ?'a = rat]
  by simp_all

lemmas rnd_eval = floor_rat_numeral_divide rnd_numeral_divide rnd_numeral rnd_one_divide rnd_1 rnd_minus
  rnd_frac_def ilog2_frac_def ties_even_div_def Let_def bits.simps


lemmas dbl_ops = lit_def fadd_def fsub_def fmul_def fdiv_def

section \<open>Incidents (src/types.ts)\<close>

text \<open>
  An optional property of a JavaScript object is either not a property of the object at
  all, or a property whose value is \<open>undefined\<close>, or a property with a value. Reading the
  property cannot tell the first two apart, but object spread can: it copies the own
  properties of its argument, also those whose value is \<open>undefined\<close>.
\<close>

datatype 'a optional = Absent | Undefined | Given 'a

fun spread :: "'a optional \<Rightarrow> 'a optional \<Rightarrow> 'a optional" where
  "spread e Absent = e"
| "spread e n = n"

fun read_prop :: "'a optional \<Rightarrow> 'a option" where
  "read_prop (Given v) = Some v"
| "read_prop _ = None"

record Camera =
  cam_id :: string
  cam_name :: string
  streamUrl :: "string optional"

record evidence_frames =
  before :: string
  peak :: string
  after :: string

record heart_rate =
  hr_start :: rat
  hr_peak :: rat
  hr_end :: rat
  hr_series :: "rat list"

record Incident =
  inc_id :: string
  cameraId :: string
  cameraName :: string
  inc_type :: IncidentType
  severity :: Severity
  confidence :: rat
  createdAt :: int
  acked :: bool
  eventTimeSec :: "rat optional"
  reasons :: "string list optional"
  clipUrl :: "string optional"
  frames :: "evidence_frames optional"
  hr :: "heart_rate optional"

section \<open>Inbox order (src/App.tsx, sortInbox)\<close>

text \<open>The comparator handed to \<open>Array.prototype.sort\<close>.\<close>

definition inbox_cmp :: "Incident \<Rightarrow> Incident \<Rightarrow> int" where
  "inbox_cmp a b =
     (if acked a \<noteq> acked b then (if acked a then 1 else - 1)
      else let sr = severityRank (severity b) - severityRank (severity a)
           in if sr \<noteq> 0 then sr else createdAt b - createdAt a)"

text \<open>
  \<open>Array.prototype.sort\<close> is a stable comparison sort: an element goes before the
  elements it does not compare greater than, and elements that compare equal keep their
  order. It is modelled as insertion from the right. The comparator returns a number.
\<close>

fun insert_by :: "('a \<Rightarrow> 'a \<Rightarrow> 'b::{zero,ord}) \<Rightarrow> 'a \<Rightarrow> 'a list \<Rightarrow> 'a list" where
  "insert_by cmp x [] = [x]"
| "insert_by cmp x (y # ys) = (if cmp x y \<le> 0 then x # y # ys else y # insert_by cmp x ys)"

definition js_sort :: "('a \<Rightarrow> 'a \<Rightarrow> 'b::{zero,ord}) \<Rightarrow> 'a list \<Rightarrow> 'a list" where
  "js_sort cmp xs = foldr (insert_by cmp) xs []"

definition sortInbox :: "Incident list \<Rightarrow> Incident list" where
  "sortInbox incidents = js_sort inbox_cmp incidents"

text \<open>The order the inbox is specified to have, in the words of the specification.\<close>

definition inbox_before :: "Incident \<Rightarrow> Incident \<Rightarrow> bool" where
  "inbox_before a b =
     ((\<not> acked a \<and> acked b) \<or>
      (acked a = acked b \<and>
        (severityRank (severity a) > severityRank (severity b) \<or>
         (severity a = severity b \<and> createdAt a \<ge> createdAt b))))"

lemma severityRank_inj: "severityRank a = severityRank b \<longleftrightarrow> a = b"
  by (cases a; cases b) simp_all

lemma severityRank_less: "severityRank a < severityRank b \<longleftrightarrow> severityRank a \<le> severityRank b \<and> a \<noteq> b"
  by (cases a; cases b) simp_all

lemma inbox_cmp_le: "inbox_cmp a b \<le> 0 \<longleftrightarrow> inbox_before a b"
  by (auto simp: inbox_cmp_def inbox_before_def Let_def severityRank_less severityRank_inj)

lemma inbox_before_total: "\<not> inbox_before a b \<Longrightarrow> inbox_before b a"
  by (cases "severity a"; cases "severity b") (auto simp: inbox_before_def)

lemma inbox_before_trans: "inbox_before a b \<Longrightarrow> inbox_before b c \<Longrightarrow> inbox_before a c"
  by (auto simp: inbox_before_def)

lemma set_insert_by: "set (insert_by cmp x xs) = insert x (set xs)"
  by (induction xs) auto

lemma mset_insert_by: "mset (insert_by cmp x xs) = add_mset x (mset xs)"
  by (induction xs) auto

lemma mset_js_sort: "mset (js_sort cmp xs) = mset xs"
  by (induction xs) (simp_all add: js_sort_def mset_insert_by)

lemma sorted_insert_inbox:
  "sorted_wrt inbox_before xs \<Longrightarrow> sorted_wrt inbox_before (insert_by inbox_cmp x xs)"
proof (induction xs)
  case Nil
  then show ?case by simp
next
  case (Cons y ys)
  show ?case
  proof (cases "inbox_cmp x y \<le> 0")
    case True
    then have xy: "inbox_before x y" by (simp add: inbox_cmp_le)
    have "\<forall>z\<in>set ys. inbox_before x z"
      using Cons.prems xy inbox_before_trans by auto
    with True xy Cons.prems show ?thesis by simp
  next
    case False
    then have yx: "inbox_before y x"
      using inbox_before_total by (simp add: inbox_cmp_le)
    from Cons have "sorted_wrt inbox_before (insert_by inbox_cmp x ys)" by simp
    with False yx Cons.prems show ?thesis by (auto simp: set_insert_by)
  qed
qed

lemma sorted_js_sort_inbox: "sorted_wrt inbox_before (js_sort inbox_cmp xs)"
  by (induction xs) (simp_all add: js_sort_def sorted_insert_inbox)

lemma inbox_before_unfolded:
  "inbox_before a b \<Longrightarrow>
     (acked a \<longrightarrow> acked b) \<and>
     (acked a = acked b \<longrightarrow> severityRank (severity b) \<le> severityRank (severity a)) \<and>
     (acked a = acked b \<and> severity a = severity b \<longrightarrow> createdAt b \<le> createdAt a)"
  by (auto simp: inbox_before_def)

definition demo_incident :: "string \<Rightarrow> Severity \<Rightarrow> bool \<Rightarrow> int \<Rightarrow> Incident" where
  "demo_incident i s a t =
     \<lparr>inc_id = i, cameraId = ''cam-1'', cameraName = ''Bed 1'', inc_type = FALL, severity = s,
      confidence = 9 / 10, createdAt = t, acked = a, eventTimeSec = Absent,
      reasons = Absent, clipUrl = Absent, frames = Absent, hr = Absent\<rparr>"

text \<open>
  Claim C5. The inbox holds the incidents it was given, and of any two entries the earlier
  one is unacknowledged if the later one is; with equal acknowledged flags the earlier one
  has the higher or the same severity rank (none < watch < risk < critical); with equal
  flags and equal severities the earlier one was created later or at the same time. In
  particular an acknowledged critical incident followed by an unacknowledged watch incident
  comes out in the opposite order.
\<close>

theorem sortInbox_order:
  "mset (sortInbox xs) = mset xs \<and>
   (\<forall>i j. i < j \<and> j < length (sortInbox xs) \<longrightarrow>
      (acked (sortInbox xs ! i) \<longrightarrow> acked (sortInbox xs ! j)) \<and>
      (acked (sortInbox xs ! i) = acked (sortInbox xs ! j) \<longrightarrow>
         severityRank (severity (sortInbox xs ! j)) \<le> severityRank (severity (sortInbox xs ! i))) \<and>
      (acked (sortInbox xs ! i) = acked (sortInbox xs ! j) \<and>
       severity (sortInbox xs ! i) = severity (sortInbox xs ! j) \<longrightarrow>
         createdAt (sortInbox xs ! j) \<le> createdAt (sortInbox xs ! i))) \<and>
   (acked c \<and> severity c = Critical \<and> \<not> acked u \<and> severity u = Watch \<longrightarrow>
      sortInbox [c, u] = [u, c])"
proof (intro conjI allI impI)
  show "mset (sortInbox xs) = mset xs"
    by (simp add: sortInbox_def mset_js_sort)
next
  fix i j
  assume ij: "i < j \<and> j < length (sortInbox xs)"
  have "sorted_wrt inbox_before (sortInbox xs)"
    by (simp add: sortInbox_def sorted_js_sort_inbox)
  with ij have b: "inbox_before (sortInbox xs ! i) (sortInbox xs ! j)"
    by (simp add: sorted_wrt_iff_nth_less)
  note u = inbox_before_unfolded [OF b]
  {
    assume "acked (sortInbox xs ! i)"
    with u show "acked (sortInbox xs ! j)" by blast
  }
  {
    assume "acked (sortInbox xs ! i) = acked (sortInbox xs ! j)"
    with u show "severityRank (severity (sortInbox xs ! j)) \<le> severityRank (severity (sortInbox xs ! i))"
      by blast
  }
  {
    assume "acked (sortInbox xs ! i) = acked (sortInbox xs ! j) \<and>
       severity (sortInbox xs ! i) = severity (sortInbox xs ! j)"
    with u show "createdAt (sortInbox xs ! j) \<le> createdAt (sortInbox xs ! i)"
      by blast
  }
next
  assume "acked c \<and> severity c = Critical \<and> \<not> acked u \<and> severity u = Watch"
  then show "sortInbox [c, u] = [u, c]"
    by (simp add: sortInbox_def js_sort_def inbox_cmp_def)
qed

theorem sortInbox_order_witness:
  "sortInbox [demo_incident ''a'' Critical True 50, demo_incident ''b'' Watch False 10]
     = [demo_incident ''b'' Watch False 10, demo_incident ''a'' Critical True 50] \<and>
   sortInbox [demo_incident ''a'' Risk False 10, demo_incident ''b'' Risk False 20,
              demo_incident ''c'' Critical False 5] ! 0 = demo_incident ''c'' Critical False 5 \<and>
   createdAt (sortInbox [demo_incident ''a'' Risk False 10, demo_incident ''b'' Risk False 20,
              demo_incident ''c'' Critical False 5] ! 2)
     \<le> createdAt (sortInbox [demo_incident ''a'' Risk False 10, demo_incident ''b'' Risk False 20,
              demo_incident ''c'' Critical False 5] ! 1)"
proof -
  let ?c = "demo_incident ''a'' Critical True 50"
  let ?u = "demo_incident ''b'' Watch False 10"
  let ?xs = "[demo_incident ''a'' Risk False 10, demo_incident ''b'' Risk False 20,
              demo_incident ''c'' Critical False 5]"
  have len: "length (sortInbox ?xs) = 3"
    by (simp add: sortInbox_def js_sort_def inbox_cmp_def demo_incident_def)
  have flags: "acked (sortInbox ?xs ! 1) = acked (sortInbox ?xs ! 2) \<and>
      severity (sortInbox ?xs ! 1) = severity (sortInbox ?xs ! 2)"
    by (simp add: sortInbox_def js_sort_def inbox_cmp_def demo_incident_def)
  have hyp: "acked ?c \<and> severity ?c = Critical \<and> \<not> acked ?u \<and> severity ?u = Watch"
    by (simp add: demo_incident_def)
  have first: "sortInbox ?xs ! 0 = demo_incident ''c'' Critical False 5"
    by (simp add: sortInbox_def js_sort_def inbox_cmp_def demo_incident_def)
  have ord: "1 < (2::nat) \<and> 2 < length (sortInbox ?xs)"
    using len by simp
  from sortInbox_order [of ?xs ?c ?u]
  have swap: "sortInbox [?c, ?u] = [?u, ?c]"
    and later: "createdAt (sortInbox ?xs ! 2) \<le> createdAt (sortInbox ?xs ! 1)"
    using hyp ord flags by blast+
  from swap later first show ?thesis by blast
qed

section \<open>Incident lifecycle (src/App.tsx, src/mock/incidents.ts)\<close>

text \<open>\<open>Array.prototype.findIndex\<close>; \<open>None\<close> stands for the result \<open>-1\<close>.\<close>

fun findIndex :: "('a \<Rightarrow> bool) \<Rightarrow> 'a list \<Rightarrow> nat option" where
  "findIndex P [] = None"
| "findIndex P (x # xs) =
     (if P x then Some 0 else (case findIndex P xs of None \<Rightarrow> None | Some i \<Rightarrow> Some (Suc i)))"

text \<open>
  The object literal of the merge,
  \<open>{ ...existing, ...next, severity: ..., acked: false, createdAt: Date.now() }\<close>:
  the required properties come from \<open>next\<close>, an optional property comes from \<open>next\<close>
  where \<open>next\<close> has it and from \<open>existing\<close> otherwise.
\<close>

definition merge_incident :: "int \<Rightarrow> Incident \<Rightarrow> Incident \<Rightarrow> Incident" where
  "merge_incident now existing next =
     \<lparr>inc_id = inc_id next, cameraId = cameraId next, cameraName = cameraName next,
      inc_type = inc_type next,
      severity = (if severityRank (severity next) > severityRank (severity existing)
                  then severity next else severity existing),
      confidence = confidence next,
      createdAt = now,
      acked = False,
      eventTimeSec = spread (eventTimeSec existing) (eventTimeSec next),
      reasons = spread (reasons existing) (reasons next),
      clipUrl = spread (clipUrl existing) (clipUrl next),
      frames = spread (frames existing) (frames next),
      hr = spread (hr existing) (hr next)\<rparr>"

definition same_source_type :: "Incident \<Rightarrow> Incident \<Rightarrow> bool" where
  "same_source_type next p = (cameraId p = cameraId next \<and> inc_type p = inc_type next)"

text \<open>The state updater of \<open>upsertIncident\<close>; \<open>now\<close> is what \<open>Date.now()\<close> returns.\<close>

definition upsertIncident :: "int \<Rightarrow> Incident \<Rightarrow> Incident list \<Rightarrow> Incident list" where
  "upsertIncident now next prev =
     (case findIndex (same_source_type next) prev of
        Some idx \<Rightarrow> prev[idx := merge_incident now (prev ! idx) next]
      | None \<Rightarrow> next # prev)"

definition ack :: "string \<Rightarrow> Incident list \<Rightarrow> Incident list" where
  "ack i prev = map (\<lambda>p. if inc_id p = i then p\<lparr>acked := True\<rparr> else p) prev"

definition resolve :: "string \<Rightarrow> Incident list \<Rightarrow> Incident list" where
  "resolve i prev = filter (\<lambda>p. inc_id p \<noteq> i) prev"

text \<open>
  The payload a tile hands to \<open>onAutoIncident\<close>. Writing \<open>eventTimeSec: payload.eventTimeSec\<close>
  in an object literal makes the property present, with the value \<open>undefined\<close> when the
  payload has none.
\<close>

record AutoPayload =
  p_camera :: Camera
  p_type :: IncidentType
  p_severity :: Severity
  p_confidence :: rat
  p_eventTimeSec :: "rat optional"
  p_reasons :: "string list"

fun assign_prop :: "'a optional \<Rightarrow> 'a optional" where
  "assign_prop (Given v) = Given v"
| "assign_prop _ = Undefined"

text \<open>
  \<open>newIncident\<close> draws its id and its heart-rate series at random and renders placeholder
  frames; these, and its reading of the clock, are inputs here.
\<close>

record generated =
  gen_id :: string
  gen_createdAt :: int
  gen_frames :: evidence_frames
  gen_hr :: heart_rate

definition newIncident :: "generated \<Rightarrow> Camera \<Rightarrow> IncidentType \<Rightarrow> Severity \<Rightarrow> Incident" where
  "newIncident g camera ty sev =
     \<lparr>inc_id = gen_id g, cameraId = cam_id camera, cameraName = cam_name camera,
      inc_type = ty, severity = sev,
      confidence = (if sev = Watch then 72 / 100 else if sev = Risk then 88 / 100 else 94 / 100),
      createdAt = gen_createdAt g, acked = False,
      eventTimeSec = Absent, reasons = Absent, clipUrl = Absent,
      frames = Given (gen_frames g), hr = Given (gen_hr g)\<rparr>"

text \<open>
  The handler \<open>onAutoIncident\<close> of the application: \<open>incidents\<close> is the list the handler
  closed over at the last render, \<open>prev\<close> the list the state updater receives.
\<close>

definition onAutoIncident ::
  "Incident list \<Rightarrow> generated \<Rightarrow> int \<Rightarrow> AutoPayload \<Rightarrow> Incident list \<Rightarrow> Incident list" where
  "onAutoIncident incidents g now payload prev =
     (let camera = p_camera payload in
      case find (\<lambda>i. cameraId i = cam_id camera \<and> inc_type i = p_type payload) incidents of
        Some existing \<Rightarrow>
          upsertIncident now
            (existing\<lparr>severity := p_severity payload, confidence := p_confidence payload,
                      reasons := Given (p_reasons payload),
                      eventTimeSec := assign_prop (p_eventTimeSec payload)\<rparr>) prev
      | None \<Rightarrow>
          upsertIncident now
            ((newIncident g camera (p_type payload) (p_severity payload))
               \<lparr>confidence := p_confidence payload,
                reasons := Given (p_reasons payload),
                eventTimeSec := assign_prop (p_eventTimeSec payload)\<rparr>) prev)"

text \<open>The operations on the set of active incidents, and their effect in sequence.\<close>

datatype lifecycle_op =
  Upsert "Incident list" generated int AutoPayload
| Ack string
| Resolve string

fun apply_op :: "lifecycle_op \<Rightarrow> Incident list \<Rightarrow> Incident list" where
  "apply_op (Upsert incidents g now payload) prev = onAutoIncident incidents g now payload prev"
| "apply_op (Ack i) prev = ack i prev"
| "apply_op (Resolve i) prev = resolve i prev"

definition run_ops :: "lifecycle_op list \<Rightarrow> Incident list \<Rightarrow> Incident list" where
  "run_ops ops start = foldl (\<lambda>prev op. apply_op op prev) start ops"

definition source_type :: "Incident \<Rightarrow> string \<times> IncidentType" where
  "source_type p = (cameraId p, inc_type p)"

definition one_per_source_type :: "Incident list \<Rightarrow> bool" where
  "one_per_source_type xs = distinct (map source_type xs)"

lemma findIndex_Some:
  "findIndex P xs = Some i \<Longrightarrow> i < length xs \<and> P (xs ! i)"
  by (induction xs arbitrary: i) (auto split: if_splits option.splits)

lemma findIndex_None: "findIndex P xs = None \<Longrightarrow> \<forall>x\<in>set xs. \<not> P x"
  by (induction xs) (auto split: if_splits option.splits)

lemma source_type_merge [simp]:
  "source_type (merge_incident now e n) = source_type n"
  by (simp add: source_type_def merge_incident_def)

lemma upsertIncident_unique:
  assumes "one_per_source_type prev"
  shows "one_per_source_type (upsertIncident now n prev)"
proof (cases "findIndex (same_source_type n) prev")
  case None
  then have "\<forall>x\<in>set prev. source_type x \<noteq> source_type n"
    using findIndex_None [of "same_source_type n" prev]
    by (auto simp: same_source_type_def source_type_def)
  with assms None show ?thesis
    by (auto simp: upsertIncident_def one_per_source_type_def)
next
  case (Some idx)
  then have idx: "idx < length prev" and k: "source_type (prev ! idx) = source_type n"
    using findIndex_Some [of "same_source_type n" prev idx]
    by (auto simp: same_source_type_def source_type_def)
  have "map source_type (prev[idx := merge_incident now (prev ! idx) n]) = map source_type prev"
    using idx k by (simp add: map_update list_update_same_conv)
  with assms Some show ?thesis
    by (simp add: upsertIncident_def one_per_source_type_def)
qed

lemma ack_unique: "one_per_source_type prev \<Longrightarrow> one_per_source_type (ack i prev)"
proof -
  have "map source_type (ack i prev) = map source_type prev"
    by (induction prev) (simp_all add: ack_def source_type_def)
  then show "one_per_source_type prev \<Longrightarrow> one_per_source_type (ack i prev)"
    by (simp add: one_per_source_type_def)
qed

lemma resolve_unique: "one_per_source_type prev \<Longrightarrow> one_per_source_type (resolve i prev)"
  by (simp add: one_per_source_type_def resolve_def distinct_map_filter)

lemma apply_op_unique: "one_per_source_type prev \<Longrightarrow> one_per_source_type (apply_op op prev)"
  by (cases op)
    (auto simp: onAutoIncident_def Let_def upsertIncident_unique ack_unique resolve_unique
      split: option.splits)

lemma run_ops_unique: "one_per_source_type start \<Longrightarrow> one_per_source_type (run_ops ops start)"
  unfolding run_ops_def
  by (induction ops arbitrary: start) (simp_all add: apply_op_unique)

lemma upsert_next_key:
  "\<exists>n. onAutoIncident incidents g now payload prev = upsertIncident now n prev \<and>
       cameraId n = cam_id (p_camera payload) \<and> inc_type n = p_type payload \<and>
       severity n = p_severity payload \<and> confidence n = p_confidence payload \<and>
       reasons n = Given (p_reasons payload) \<and>
       eventTimeSec n = assign_prop (p_eventTimeSec payload)"
proof (cases "find (\<lambda>i. cameraId i = cam_id (p_camera payload) \<and> inc_type i = p_type payload) incidents")
  case None
  show ?thesis
    by (rule exI [of _ "(newIncident g (p_camera payload) (p_type payload) (p_severity payload))
               \<lparr>confidence := p_confidence payload,
                reasons := Given (p_reasons payload),
                eventTimeSec := assign_prop (p_eventTimeSec payload)\<rparr>"])
      (simp add: onAutoIncident_def Let_def newIncident_def None)
next
  case (Some e)
  then have "cameraId e = cam_id (p_camera payload) \<and> inc_type e = p_type payload"
    by (auto simp: find_Some_iff)
  then show ?thesis
    by (intro exI [of _ "e\<lparr>severity := p_severity payload, confidence := p_confidence payload,
                      reasons := Given (p_reasons payload),
                      eventTimeSec := assign_prop (p_eventTimeSec payload)\<rparr>"])
      (simp add: onAutoIncident_def Let_def Some)
qed

lemma read_spread_assign [simp]: "read_prop (spread e (assign_prop x)) = read_prop x"
  by (cases x) simp_all

text \<open>
  Claim C3. When the list of active incidents already holds an incident of the payload's
  camera and type, the first such entry (index \<open>idx\<close>) is rewritten in place and no entry
  is added: its severity is the one of higher rank among its old severity and the
  payload's, its confidence, reasons and event time are the payload's, it is
  unacknowledged, and its creation time is the current time. Every sequence of upserts,
  acknowledgements and resolutions that starts from the empty list leads to a list with at
  most one incident per camera and type.
\<close>

theorem upsert_merges_in_place:
  "findIndex (\<lambda>p. cameraId p = cam_id (p_camera payload) \<and> inc_type p = p_type payload) prev = Some idx
   \<longrightarrow>
     (let result = onAutoIncident incidents g now payload prev; m = result ! idx in
        length result = length prev \<and>
        (\<forall>j < length prev. j \<noteq> idx \<longrightarrow> result ! j = prev ! j) \<and>
        cameraId m = cam_id (p_camera payload) \<and> inc_type m = p_type payload \<and>
        severityRank (severity m) =
          max (severityRank (severity (prev ! idx))) (severityRank (p_severity payload)) \<and>
        severity m \<in> {severity (prev ! idx), p_severity payload} \<and>
        confidence m = p_confidence payload \<and>
        read_prop (reasons m) = Some (p_reasons payload) \<and>
        read_prop (eventTimeSec m) = read_prop (p_eventTimeSec payload) \<and>
        acked m = False \<and>
        createdAt m = now) \<and>
     one_per_source_type (run_ops ops [])"
proof (intro conjI impI)
  show "one_per_source_type (run_ops ops [])"
    by (rule run_ops_unique) (simp add: one_per_source_type_def)
next
  assume f: "findIndex (\<lambda>p. cameraId p = cam_id (p_camera payload) \<and> inc_type p = p_type payload) prev = Some idx"
  obtain n where n: "onAutoIncident incidents g now payload prev = upsertIncident now n prev"
    "cameraId n = cam_id (p_camera payload)" "inc_type n = p_type payload"
    "severity n = p_severity payload" "confidence n = p_confidence payload"
    "reasons n = Given (p_reasons payload)"
    "eventTimeSec n = assign_prop (p_eventTimeSec payload)"
    using upsert_next_key by blast
  have same: "same_source_type n = (\<lambda>p. cameraId p = cam_id (p_camera payload) \<and> inc_type p = p_type payload)"
    using n by (auto simp: same_source_type_def fun_eq_iff)
  from f have idx: "idx < length prev"
    using findIndex_Some by blast
  have r: "onAutoIncident incidents g now payload prev = prev[idx := merge_incident now (prev ! idx) n]"
    using n(1) f same by (simp add: upsertIncident_def)
  show "let result = onAutoIncident incidents g now payload prev; m = result ! idx in
        length result = length prev \<and>
        (\<forall>j < length prev. j \<noteq> idx \<longrightarrow> result ! j = prev ! j) \<and>
        cameraId m = cam_id (p_camera payload) \<and> inc_type m = p_type payload \<and>
        severityRank (severity m) =
          max (severityRank (severity (prev ! idx))) (severityRank (p_severity payload)) \<and>
        severity m \<in> {severity (prev ! idx), p_severity payload} \<and>
        confidence m = p_confidence payload \<and>
        read_prop (reasons m) = Some (p_reasons payload) \<and>
        read_prop (eventTimeSec m) = read_prop (p_eventTimeSec payload) \<and>
        acked m = False \<and>
        createdAt m = now"
    unfolding r Let_def using idx n
    by (simp add: merge_incident_def)
qed

definition demo_camera :: Camera where
  "demo_camera = \<lparr>cam_id = ''cam-1'', cam_name = ''Bed 1'', streamUrl = Absent\<rparr>"

definition demo_payload :: AutoPayload where
  "demo_payload =
     \<lparr>p_camera = demo_camera, p_type = FALL, p_severity = Watch, p_confidence = 7 / 10,
      p_eventTimeSec = Absent, p_reasons = [''drop:0.20'']\<rparr>"

definition demo_generated :: generated where
  "demo_generated =
     \<lparr>gen_id = ''inc-2'', gen_createdAt = 900,
      gen_frames = \<lparr>before = ''b'', peak = ''p'', after = ''a''\<rparr>,
      gen_hr = \<lparr>hr_start = 80, hr_peak = 95, hr_end = 84, hr_series = [80, 95, 84]\<rparr>\<rparr>"

theorem upsert_merges_in_place_witness:
  "findIndex (\<lambda>p. cameraId p = cam_id (p_camera demo_payload) \<and> inc_type p = p_type demo_payload)
     [demo_incident ''inc-1'' Critical True 100] = Some 0 \<and>
   onAutoIncident [] demo_generated 1000 demo_payload [demo_incident ''inc-1'' Critical True 100] ! 0
     = (newIncident demo_generated demo_camera FALL Critical)
         \<lparr>confidence := 7 / 10, createdAt := 1000,
          eventTimeSec := Undefined, reasons := Given [''drop:0.20'']\<rparr> \<and>
   severity (onAutoIncident [] demo_generated 1000 demo_payload
              [demo_incident ''inc-1'' Critical True 100] ! 0) = Critical \<and>
   length (onAutoIncident [] demo_generated 1000 demo_payload
              [demo_incident ''inc-1'' Critical True 100]) = 1"
proof -
  have f: "findIndex (\<lambda>p. cameraId p = cam_id (p_camera demo_payload) \<and> inc_type p = p_type demo_payload)
     [demo_incident ''inc-1'' Critical True 100] = Some 0"
    by (simp add: demo_payload_def demo_camera_def demo_incident_def)
  have v: "onAutoIncident [] demo_generated 1000 demo_payload [demo_incident ''inc-1'' Critical True 100] ! 0
     = (newIncident demo_generated demo_camera FALL Critical)
         \<lparr>confidence := 7 / 10, createdAt := 1000,
          eventTimeSec := Undefined, reasons := Given [''drop:0.20'']\<rparr>"
    by (simp add: onAutoIncident_def upsertIncident_def merge_incident_def same_source_type_def
        newIncident_def demo_payload_def demo_camera_def demo_incident_def demo_generated_def)
  from upsert_merges_in_place [of demo_payload "[demo_incident ''inc-1'' Critical True 100]" 0
      "[]" demo_generated 1000 "[]"] f
  have "severityRank (severity (onAutoIncident [] demo_generated 1000 demo_payload
              [demo_incident ''inc-1'' Critical True 100] ! 0))
      = max (severityRank (severity ([demo_incident ''inc-1'' Critical True 100] ! 0)))
            (severityRank (p_severity demo_payload))"
    and "length (onAutoIncident [] demo_generated 1000 demo_payload
              [demo_incident ''inc-1'' Critical True 100]) = 1"
    by (simp_all add: Let_def)
  then have "severity (onAutoIncident [] demo_generated 1000 demo_payload
              [demo_incident ''inc-1'' Critical True 100] ! 0) = Critical"
    and "length (onAutoIncident [] demo_generated 1000 demo_payload
              [demo_incident ''inc-1'' Critical True 100]) = 1"
    by (simp_all add: demo_incident_def demo_payload_def severityRank_inj [of _ Critical, simplified])
  with f v show ?thesis by blast
qed

section \<open>Health monitor (src/lib/videoProbe.ts)\<close>

datatype StreamHealthState = Ok | Buffering | Frozen | Black | Error

text \<open>
  A health reading. The \<open>details\<close> snapshot that the source attaches to a reading is
  written and logged but never read by the probe; it is left out.
\<close>

record StreamHealth =
  state :: StreamHealthState
  sinceMs :: int
  reason :: string

record VideoProbeOptions =
  frozenSeconds :: rat
  enablePixelProbe :: bool
  sampleEveryMs :: rat
  blackLumaThreshold :: rat
  blackRatioThreshold :: rat
  blackConsecutive :: rat

definition default_probe_options :: VideoProbeOptions where
  "default_probe_options =
     \<lparr>frozenSeconds = 8, enablePixelProbe = False, sampleEveryMs = 800,
      blackLumaThreshold = 18, blackRatioThreshold = lit (92 / 100), blackConsecutive = 2\<rparr>"

text \<open>
  How JavaScript writes a number into a string (in a template literal, and with
  \<open>toFixed(2)\<close>) is taken as given.
\<close>

record number_text =
  num_text :: "rat \<Rightarrow> string"
  toFixed2 :: "rat \<Rightarrow> string"

text \<open>
  What a handler reads from the video element: \<open>currentTime\<close> is \<open>None\<close> when it is not
  a finite number (\<open>safeNum\<close>).
\<close>

record video_reading =
  paused :: bool
  ended :: bool
  currentTime :: "rat option"

fun mediaErrorText :: "nat option \<Rightarrow> string" where
  "mediaErrorText code =
     (let c = (case code of None \<Rightarrow> 0 | Some n \<Rightarrow> n) in
      if c = 1 then ''ABORTED''
      else if c = 2 then ''NETWORK''
      else if c = 3 then ''DECODE''
      else if c = 4 then ''SRC_NOT_SUPPORTED''
      else ''UNKNOWN'')"

text \<open>The mutable variables of one attachment; \<open>ctx_ok\<close> says that the canvas gave a 2d context.\<close>

record probe =
  disposed :: bool
  health :: StreamHealth
  lastTime :: rat
  lastProgressAt :: int
  blackStreak :: nat
  pixelDisabled :: bool
  ctx_ok :: bool

text \<open>\<open>emit\<close>: the new state of the attachment and the readings handed to \<open>onHealth\<close>.\<close>

definition emit :: "StreamHealth \<Rightarrow> probe \<Rightarrow> probe \<times> StreamHealth list" where
  "emit next p =
     (if disposed p then (p, [])
      else if state next = state (health p) \<and> reason next = reason (health p) then (p, [])
      else (p\<lparr>health := next\<rparr>, [next]))"

text \<open>
  A pixel read either throws (the canvas is tainted by cross-origin data) or yields the
  96 x 54 image, one (r, g, b) triple per pixel.
\<close>

datatype pixel_read = Tainted | Pixels "(nat \<times> nat \<times> nat) list"

text \<open>\<open>r * 0.2126 + g * 0.7152 + b * 0.0722\<close>, computed in doubles from left to right.\<close>

definition luma :: "nat \<times> nat \<times> nat \<Rightarrow> rat" where
  "luma px = (case px of (r, g, b) \<Rightarrow>
     fadd (fadd (fmul (of_nat r) (lit (2126 / 10000))) (fmul (of_nat g) (lit (7152 / 10000))))
          (fmul (of_nat b) (lit (722 / 10000))))"

definition blackCount :: "rat \<Rightarrow> (nat \<times> nat \<times> nat) list \<Rightarrow> nat" where
  "blackCount threshold img = length (filter (\<lambda>px. luma px \<le> threshold) img)"

definition frozen_tick ::
  "VideoProbeOptions \<Rightarrow> number_text \<Rightarrow> int \<Rightarrow> video_reading \<Rightarrow> probe \<Rightarrow> probe \<times> StreamHealth list" where
  "frozen_tick opts fmt now video p =
     (if disposed p then (p, [])
      else if paused video \<or> ended video then (p, [])
      else case currentTime video of
        None \<Rightarrow> (p, [])
      | Some t \<Rightarrow>
          if t \<noteq> lastTime p then
            (let p1 = p\<lparr>lastTime := t, lastProgressAt := now\<rparr> in
             if state (health p1) = Frozen
             then emit \<lparr>state = Ok, sinceMs = now, reason = ''time_progress''\<rparr> p1
             else (p1, []))
          else if of_int (now - lastProgressAt p) \<ge> fmul (frozenSeconds opts) 1000
          then emit \<lparr>state = Frozen, sinceMs = now,
                     reason = ''no_time_progress_'' @ num_text fmt (frozenSeconds opts) @ ''s''\<rparr> p
          else (p, []))"

definition pixel_tick ::
  "VideoProbeOptions \<Rightarrow> number_text \<Rightarrow> int \<Rightarrow> pixel_read \<Rightarrow> probe \<Rightarrow> probe \<times> StreamHealth list" where
  "pixel_tick opts fmt now sample p =
     (if disposed p then (p, [])
      else if \<not> enablePixelProbe opts then (p, [])
      else if pixelDisabled p then (p, [])
      else if \<not> ctx_ok p then (p, [])
      else if state (health p) \<noteq> Ok then (p, [])
      else case sample of
        Tainted \<Rightarrow> (p\<lparr>pixelDisabled := True\<rparr>, [])
      | Pixels img \<Rightarrow>
          (let ratio = fdiv (of_nat (blackCount (blackLumaThreshold opts) img)) (of_nat (96 * 54 :: nat));
               (p1, out1) =
                 (if ratio \<ge> blackRatioThreshold opts
                  then (p\<lparr>blackStreak := blackStreak p + 1\<rparr>, [])
                  else (let q = p\<lparr>blackStreak := 0\<rparr> in
                        if state (health q) = Black
                        then emit \<lparr>state = Ok, sinceMs = now, reason = ''black_recovered''\<rparr> q
                        else (q, [])));
               (p2, out2) =
                 (if of_nat (blackStreak p1) \<ge> blackConsecutive opts
                  then emit \<lparr>state = Black, sinceMs = now,
                             reason = ''black_ratio_'' @ toFixed2 fmt ratio\<rparr> p1
                  else (p1, []))
           in (p2, out1 @ out2)))"

text \<open>
  What can happen to an attachment: the five media events it listens to (the error event
  with \<open>video.error?.code ?? null\<close>), a firing of either interval, and the call of the
  detach handle.
\<close>

datatype probe_event =
  Waiting
| Stalled
| Playing
| CanPlay
| MediaError "nat option"
| FrozenTick video_reading
| PixelTick pixel_read
| Detach

text \<open>
  One event at clock reading \<open>now\<close>. After the detach handle has run the listeners are
  removed and the intervals cleared, so no handler runs any more.
\<close>

fun probe_step ::
  "VideoProbeOptions \<Rightarrow> number_text \<Rightarrow> int \<times> probe_event \<Rightarrow> probe \<Rightarrow> probe \<times> StreamHealth list" where
  "probe_step opts fmt (now, ev) p =
     (if disposed p then (p, [])
      else case ev of
        Waiting \<Rightarrow> emit \<lparr>state = Buffering, sinceMs = now, reason = ''waiting''\<rparr> p
      | Stalled \<Rightarrow> emit \<lparr>state = Buffering, sinceMs = now, reason = ''stalled''\<rparr> p
      | Playing \<Rightarrow> emit \<lparr>state = Ok, sinceMs = now, reason = ''playing''\<rparr> p
      | CanPlay \<Rightarrow> emit \<lparr>state = Ok, sinceMs = now, reason = ''canplay''\<rparr> p
      | MediaError code \<Rightarrow>
          emit \<lparr>state = Error, sinceMs = now, reason = ''media_'' @ mediaErrorText code\<rparr> p
      | FrozenTick video \<Rightarrow> frozen_tick opts fmt now video p
      | PixelTick sample \<Rightarrow> pixel_tick opts fmt now sample p
      | Detach \<Rightarrow> (p\<lparr>disposed := True\<rparr>, []))"

fun probe_run ::
  "VideoProbeOptions \<Rightarrow> number_text \<Rightarrow> (int \<times> probe_event) list \<Rightarrow> probe \<Rightarrow> probe \<times> StreamHealth list" where
  "probe_run opts fmt [] p = (p, [])"
| "probe_run opts fmt (e # es) p =
     (let (p1, out1) = probe_step opts fmt e p;
          (p2, out2) = probe_run opts fmt es p1
      in (p2, out1 @ out2))"

text \<open>
  \<open>attachVideoProbe\<close> up to its \<open>return\<close>: the variables are initialised and the first
  reading is emitted; \<open>video\<close> is the element as read during the call.
\<close>

definition attachVideoProbe :: "int \<Rightarrow> video_reading \<Rightarrow> bool \<Rightarrow> probe \<times> StreamHealth list" where
  "attachVideoProbe now video has_ctx =
     emit \<lparr>state = Ok, sinceMs = now, reason = ''attached''\<rparr>
       \<lparr>disposed = False,
        health = \<lparr>state = Ok, sinceMs = now, reason = ''init''\<rparr>,
        lastTime = (case currentTime video of None \<Rightarrow> 0 | Some t \<Rightarrow> t),
        lastProgressAt = now,
        blackStreak = 0,
        pixelDisabled = False,
        ctx_ok = has_ctx\<rparr>"

text \<open>All readings an attachment delivers: the one of the attach call, then those of the events.\<close>

definition probe_session ::
  "VideoProbeOptions \<Rightarrow> number_text \<Rightarrow> int \<Rightarrow> video_reading \<Rightarrow> bool \<Rightarrow> (int \<times> probe_event) list
     \<Rightarrow> probe \<times> StreamHealth list" where
  "probe_session opts fmt now video has_ctx evs =
     (let (p0, out0) = attachVideoProbe now video has_ctx;
          (p1, out1) = probe_run opts fmt evs p0
      in (p1, out0 @ out1))"

definition reading_key :: "StreamHealth \<Rightarrow> StreamHealthState \<times> string" where
  "reading_key h = (state h, reason h)"

text \<open>
  Claim C10. The attach call itself delivers exactly one reading, state ok with reason
  "attached", and that reading is the first of every sequence of readings the attachment
  delivers, whatever events follow (also none).
\<close>

theorem attach_delivers_baseline:
  "snd (attachVideoProbe now video has_ctx) = [\<lparr>state = Ok, sinceMs = now, reason = ''attached''\<rparr>] \<and>
   snd (probe_session opts fmt now video has_ctx []) =
     [\<lparr>state = Ok, sinceMs = now, reason = ''attached''\<rparr>] \<and>
   take 1 (snd (probe_session opts fmt now video has_ctx evs)) =
     [\<lparr>state = Ok, sinceMs = now, reason = ''attached''\<rparr>]"
  by (simp add: attachVideoProbe_def emit_def probe_session_def split: prod.splits)

definition dedup_inv :: "StreamHealth \<Rightarrow> StreamHealth list \<Rightarrow> bool" where
  "dedup_inv h out =
     (distinct_adj (map reading_key out) \<and> (out \<noteq> [] \<longrightarrow> reading_key (last out) = reading_key h))"

lemma emit_dedup:
  "dedup_inv (health p) out \<Longrightarrow>
   dedup_inv (health (fst (emit n p))) (out @ snd (emit n p))"
  by (auto simp: emit_def dedup_inv_def reading_key_def distinct_adj_append_iff last_map)

lemma frozen_dedup:
  "dedup_inv (health p) out \<Longrightarrow>
   dedup_inv (health (fst (frozen_tick opts fmt now v p))) (out @ snd (frozen_tick opts fmt now v p))"
  using emit_dedup [of "p\<lparr>lastTime := the (currentTime v), lastProgressAt := now\<rparr>" out]
    emit_dedup [of p out]
  by (auto simp: frozen_tick_def Let_def split: option.splits)

lemma emit_dedup_pair:
  "dedup_inv (health p) out \<Longrightarrow> emit n p = (p', o') \<Longrightarrow> dedup_inv (health p') (out @ o')"
  using emit_dedup [of p out n] by simp

lemma pixel_dedup:
  assumes inv: "dedup_inv (health p) out"
  shows "dedup_inv (health (fst (pixel_tick opts fmt now s p))) (out @ snd (pixel_tick opts fmt now s p))"
proof (cases s)
  case Tainted
  with inv show ?thesis by (simp add: pixel_tick_def)
next
  case (Pixels img)
  define ratio :: rat where
    "ratio = fdiv (of_nat (blackCount (blackLumaThreshold opts) img)) (of_nat (96 * 54 :: nat))"
  define first where "first =
     (if ratio \<ge> blackRatioThreshold opts
      then (p\<lparr>blackStreak := blackStreak p + 1\<rparr>, [])
      else (let q = p\<lparr>blackStreak := 0\<rparr> in
            if state (health q) = Black
            then emit \<lparr>state = Ok, sinceMs = now, reason = ''black_recovered''\<rparr> q
            else (q, [])))"
  define second where "second =
     (if of_nat (blackStreak (fst first)) \<ge> blackConsecutive opts
      then emit \<lparr>state = Black, sinceMs = now,
                 reason = ''black_ratio_'' @ toFixed2 fmt ratio\<rparr> (fst first)
      else (fst first, []))"
  have one: "dedup_inv (health (fst first)) (out @ snd first)"
    using inv emit_dedup [of "p\<lparr>blackStreak := 0\<rparr>" out]
    by (simp add: first_def Let_def)
  have two: "dedup_inv (health (fst second)) ((out @ snd first) @ snd second)"
    using one emit_dedup [of "fst first" "out @ snd first"]
    by (simp add: second_def)
  have "pixel_tick opts fmt now s p = (p, []) \<or>
        pixel_tick opts fmt now s p = (fst second, snd first @ snd second)"
    unfolding pixel_tick_def Pixels second_def first_def ratio_def
    by (simp add: Let_def split: prod.splits)
  with inv two show ?thesis by auto
qed

lemma step_dedup:
  "dedup_inv (health p) out \<Longrightarrow>
   dedup_inv (health (fst (probe_step opts fmt e p))) (out @ snd (probe_step opts fmt e p))"
  by (cases e; cases "snd e")
    (auto simp: emit_dedup frozen_dedup pixel_dedup)

lemma run_dedup:
  "dedup_inv (health p) out \<Longrightarrow>
   dedup_inv (health (fst (probe_run opts fmt es p))) (out @ snd (probe_run opts fmt es p))"
proof (induction es arbitrary: p out)
  case Nil
  then show ?case by simp
next
  case (Cons e es)
  from Cons.IH [OF step_dedup [OF Cons.prems, of opts fmt e]]
  show ?case by (simp add: split_beta)
qed

lemma attach_dedup:
  "dedup_inv (health (fst (attachVideoProbe now v c))) (snd (attachVideoProbe now v c))"
  by (simp add: attachVideoProbe_def emit_def dedup_inv_def)

text \<open>
  Claim C4. In the sequence of readings one attachment hands to its callback, from the
  attach call on and through any sequence of media events, watchdog ticks, pixel samples
  and detach calls, no reading has the state and the reason of the reading before it.
\<close>

theorem no_duplicate_readings:
  "distinct_adj (map reading_key (snd (probe_session opts fmt now video has_ctx evs)))"
proof -
  have "dedup_inv (health (fst (probe_run opts fmt evs (fst (attachVideoProbe now video has_ctx)))))
          (snd (attachVideoProbe now video has_ctx)
             @ snd (probe_run opts fmt evs (fst (attachVideoProbe now video has_ctx))))"
    by (rule run_dedup [OF attach_dedup])
  then show ?thesis
    by (simp add: probe_session_def split_beta dedup_inv_def)
qed


text \<open>
  The pixel sampler returns before it reads a frame unless the current state is ok, so in
  state black it never samples: the branch that would report \<open>black_recovered\<close> is never
  reached.
\<close>

lemma pixel_tick_not_ok:
  "state (health p) \<noteq> Ok \<Longrightarrow> pixel_tick opts fmt now sample p = (p, [])"
  by (simp add: pixel_tick_def)

definition black_ratio :: "VideoProbeOptions \<Rightarrow> (nat \<times> nat \<times> nat) list \<Rightarrow> rat" where
  "black_ratio opts img = fdiv (of_nat (blackCount (blackLumaThreshold opts) img)) (of_nat (96 * 54 :: nat))"

text \<open>
  While the state is ok the sampler does what is expected of it: a sample below the ratio
  threshold puts the streak back to 0, and the sample that completes the streak reports
  black.
\<close>

lemma pixel_tick_bright_resets:
  assumes "\<not> disposed p" "enablePixelProbe opts" "\<not> pixelDisabled p" "ctx_ok p"
    and "state (health p) = Ok" and "black_ratio opts img < blackRatioThreshold opts"
  shows "blackStreak (fst (pixel_tick opts fmt now (Pixels img) p)) = 0"
  using assms by (simp add: pixel_tick_def black_ratio_def Let_def emit_def)

lemma pixel_tick_dark_confirms:
  assumes "\<not> disposed p" "enablePixelProbe opts" "\<not> pixelDisabled p" "ctx_ok p"
    and "state (health p) = Ok" and "black_ratio opts img \<ge> blackRatioThreshold opts"
    and "of_nat (blackStreak p + 1) \<ge> blackConsecutive opts"
  shows "map state (snd (pixel_tick opts fmt now (Pixels img) p)) = [Black] \<and>
         state (health (fst (pixel_tick opts fmt now (Pixels img) p))) = Black"
  using assms by (simp add: pixel_tick_def black_ratio_def Let_def emit_def)

lemma blackCount_replicate:
  "blackCount th (replicate n px) = (if luma px \<le> th then n else 0)"
  by (simp add: blackCount_def)

lemma luma_black: "luma (0, 0, 0) = 0"
  by (simp add: luma_def dbl_ops)

lemma luma_white: "luma (255, 255, 255) = 8972014882652159 / 35184372088832"
  by (simp add: luma_def dbl_ops rnd_eval)

definition dark_frame :: "(nat \<times> nat \<times> nat) list" where
  "dark_frame = replicate (96 * 54) (0, 0, 0)"

definition bright_frame :: "(nat \<times> nat \<times> nat) list" where
  "bright_frame = replicate (96 * 54) (255, 255, 255)"

definition pixel_probe_options :: VideoProbeOptions where
  "pixel_probe_options = default_probe_options\<lparr>enablePixelProbe := True\<rparr>"

definition playing_video :: video_reading where
  "playing_video = \<lparr>paused = False, ended = False, currentTime = Some 0\<rparr>"

text \<open>
  Claim C2 at a concrete input (defaults, pixel probe enabled): two dark samples make the
  attachment report black; the bright samples that follow are not looked at, nothing is
  reported, and the state is still black.
\<close>

theorem black_is_not_left_by_a_bright_sample:
  "\<forall>fmt.
     map state (snd (probe_session pixel_probe_options fmt 0 playing_video True
        [(800, PixelTick (Pixels dark_frame)), (1600, PixelTick (Pixels dark_frame))]))
       = [Ok, Black] \<and>
     map state (snd (probe_session pixel_probe_options fmt 0 playing_video True
        [(800, PixelTick (Pixels dark_frame)), (1600, PixelTick (Pixels dark_frame)),
         (2400, PixelTick (Pixels bright_frame)), (3200, PixelTick (Pixels bright_frame))]))
       = [Ok, Black] \<and>
     state (health (fst (probe_session pixel_probe_options fmt 0 playing_video True
        [(800, PixelTick (Pixels dark_frame)), (1600, PixelTick (Pixels dark_frame)),
         (2400, PixelTick (Pixels bright_frame)), (3200, PixelTick (Pixels bright_frame))])))
       = Black"
  by (simp add: probe_session_def attachVideoProbe_def emit_def pixel_tick_def Let_def
      pixel_probe_options_def default_probe_options_def dark_frame_def bright_frame_def
      blackCount_replicate luma_black luma_white dbl_ops rnd_eval)

section \<open>Scene probe (src/lib/sceneProbe.ts)\<close>

datatype PeopleBand = BandUnknown | BandNone | Few | Crowd

record SceneProbeResult =
  peopleBand :: PeopleBand
  motion :: rat
  pixelsOk :: bool

record SceneProbeOptions =
  scene_sampleEveryMs :: rat
  motionThreshold :: rat
  gridX :: rat
  gridY :: rat
  presenceMin :: rat
  crowdMinCells :: rat

definition default_scene_options :: SceneProbeOptions where
  "default_scene_options =
     \<lparr>scene_sampleEveryMs = 900, motionThreshold = 28, gridX = 6, gridY = 4,
      presenceMin = lit (4 / 1000), crowdMinCells = 7\<rparr>"

definition clamp :: "rat \<Rightarrow> rat \<Rightarrow> rat \<Rightarrow> rat" where
  "clamp n a b = max a (min b n)"

text \<open>Storing a number into a \<open>Uint8ClampedArray\<close>: clamped to 0..255, rounded, ties to even.\<close>

definition to_uint8_clamp :: "rat \<Rightarrow> nat" where
  "to_uint8_clamp x =
     (if x \<le> 0 then 0
      else if x \<ge> 255 then 255
      else let f = \<lfloor>x\<rfloor> in
           if of_int f + 1 / 2 < x then nat (f + 1)
           else if x < of_int f + 1 / 2 then nat f
           else if even f then nat f else nat (f + 1))"

text \<open>
  The greyscale buffer: \<open>w * h\<close> bytes, zero where the image gave no pixel; writes past its
  end are dropped.
\<close>

definition gray_of :: "(nat \<times> nat \<times> nat) list \<Rightarrow> nat list" where
  "gray_of img =
     (let g = take (96 * 54) (map (\<lambda>px. to_uint8_clamp (luma px)) img)
      in g @ replicate (96 * 54 - length g) 0)"

definition pixel_diff :: "nat list \<Rightarrow> nat list \<Rightarrow> nat \<Rightarrow> nat" where
  "pixel_diff gray prev idx = nat \<bar>int (gray ! idx) - int (prev ! idx)\<bar>"

text \<open>The indices \<open>y * w + x\<close> of the pixels whose difference exceeds the threshold, in loop order.\<close>

definition changed_pixels :: "rat \<Rightarrow> nat list \<Rightarrow> nat list \<Rightarrow> nat list" where
  "changed_pixels threshold gray prev =
     filter (\<lambda>idx. of_nat (pixel_diff gray prev idx) > threshold) [0 ..< 96 * 54]"

text \<open>
  The length \<open>gridX * gridY\<close> handed to \<open>new Array\<close>, which throws a \<open>RangeError\<close> unless
  the length is an integer from 0 to 2^32 - 1.
\<close>

definition grid_cells :: "SceneProbeOptions \<Rightarrow> rat" where
  "grid_cells opts = fmul (gridX opts) (gridY opts)"

definition array_length_ok :: "rat \<Rightarrow> bool" where
  "array_length_ok n = (of_int \<lfloor>n\<rfloor> = n \<and> 0 \<le> n \<and> n < 2 ^ 32)"

text \<open>
  \<open>Math.min(grid - 1, Math.floor(x / cell))\<close> with \<open>cell = Math.floor(extent / grid)\<close>.
  With \<open>grid = 0\<close> the cell size is infinite, \<open>x / cell\<close> is 0 and the result is \<open>-1\<close>;
  with a cell size of 0 the quotient is \<open>NaN\<close> at \<open>x = 0\<close> (here \<open>None\<close>) and infinite
  elsewhere, where the result is \<open>grid - 1\<close>.
\<close>

definition cell_coord :: "rat \<Rightarrow> nat \<Rightarrow> nat \<Rightarrow> rat option" where
  "cell_coord grid extent x =
     (if grid = 0 then Some (min (fsub grid 1) 0)
      else let c = \<lfloor>fdiv (of_nat extent) grid\<rfloor> in
           if c = 0 then (if x = 0 then None else Some (fsub grid 1))
           else Some (min (fsub grid 1) (of_int \<lfloor>fdiv (of_nat x) (of_int c)\<rfloor>)))"

text \<open>
  The element of \<open>cells\<close> that \<open>cells[cy * gridX + cx]++\<close> counts up for the pixel with
  index \<open>idx = y * w + x\<close>: \<open>None\<close> when the computed index is \<open>NaN\<close>, negative or not
  an integer, in which case the increment makes a property that is no element of the
  array. (An index beyond the length makes an element that holds \<open>NaN\<close>, which no
  comparison finds active.)
\<close>

definition cell_index :: "SceneProbeOptions \<Rightarrow> nat \<Rightarrow> nat option" where
  "cell_index opts idx =
     (case (cell_coord (gridX opts) 96 (idx mod 96), cell_coord (gridY opts) 54 (idx div 96)) of
        (Some cx, Some cy) \<Rightarrow>
          (let k = fadd (fmul cy (gridX opts)) cx
           in if 0 \<le> k \<and> of_int \<lfloor>k\<rfloor> = k then Some (nat \<lfloor>k\<rfloor>) else None)
      | _ \<Rightarrow> None)"

definition cells :: "SceneProbeOptions \<Rightarrow> nat list \<Rightarrow> nat list" where
  "cells opts changed_idx =
     map (\<lambda>k. length (filter (\<lambda>idx. cell_index opts idx = Some k) changed_idx))
       [0 ..< nat \<lfloor>grid_cells opts\<rfloor>]"

text \<open>
  \<open>Math.max(5, Math.floor(cellW * cellH * 0.02))\<close>. With a grid size of 0 the source's cell
  size is infinite and this number is not the source's, but then there are no cells to
  compare with it.
\<close>

definition cellThreshold :: "SceneProbeOptions \<Rightarrow> rat" where
  "cellThreshold opts =
     max 5 (of_int \<lfloor>fmul (fmul (of_int \<lfloor>fdiv 96 (gridX opts)\<rfloor>) (of_int \<lfloor>fdiv 54 (gridY opts)\<rfloor>))
                         (lit (2 / 100))\<rfloor>)"

definition activeCells :: "SceneProbeOptions \<Rightarrow> nat list \<Rightarrow> nat list \<Rightarrow> nat" where
  "activeCells opts gray prev =
     length (filter (\<lambda>c. of_nat c > cellThreshold opts)
       (cells opts (changed_pixels (motionThreshold opts) gray prev)))"

definition presence :: "SceneProbeOptions \<Rightarrow> nat list \<Rightarrow> nat list \<Rightarrow> rat" where
  "presence opts gray prev =
     fdiv (of_nat (length (changed_pixels (motionThreshold opts) gray prev))) (of_nat (96 * 54 :: nat))"

definition sumDiff :: "SceneProbeOptions \<Rightarrow> nat list \<Rightarrow> nat list \<Rightarrow> nat" where
  "sumDiff opts gray prev =
     sum_list (map (pixel_diff gray prev) (changed_pixels (motionThreshold opts) gray prev))"

text \<open>The variables of one attachment; \<open>timer_on\<close> is false once the interval has been cleared.\<close>

record scene_probe =
  last_gray :: "nat list option"
  scene_pixelsOk :: bool
  timer_on :: bool
  scene_ctx_ok :: bool

record scene_sample =
  readyState :: nat
  videoWidth :: nat
  videoHeight :: nat
  frame :: pixel_read

text \<open>
  The body of the interval. Its \<open>catch\<close> takes whatever the \<open>try\<close> block throws: the
  pixel read on a tainted canvas, and the \<open>RangeError\<close> of \<open>new Array\<close>, which is
  reached from the second sample on.
\<close>

definition scene_failed :: "scene_probe \<Rightarrow> scene_probe \<times> SceneProbeResult list" where
  "scene_failed s =
     (s\<lparr>scene_pixelsOk := False, timer_on := False\<rparr>,
      [\<lparr>peopleBand = BandUnknown, motion = 0, pixelsOk = False\<rparr>])"

definition scene_tick ::
  "SceneProbeOptions \<Rightarrow> scene_sample \<Rightarrow> scene_probe \<Rightarrow> scene_probe \<times> SceneProbeResult list" where
  "scene_tick opts inp s =
     (if \<not> scene_ctx_ok s then (s, [])
      else if readyState inp < 2 then (s, [])
      else if videoWidth inp = 0 \<or> videoHeight inp = 0 then (s, [])
      else case frame inp of
        Tainted \<Rightarrow> scene_failed s
      | Pixels img \<Rightarrow>
          (let gray = gray_of img in
           case last_gray s of
             None \<Rightarrow>
               (s\<lparr>last_gray := Some gray\<rparr>,
                [\<lparr>peopleBand = BandUnknown, motion = 0, pixelsOk = True\<rparr>])
           | Some prev \<Rightarrow>
               if \<not> array_length_ok (grid_cells opts) then scene_failed s
               else
                 (let m = clamp (fdiv (of_nat (sumDiff opts gray prev)) (of_nat (96 * 54 * 255 :: nat))) 0 1;
                      band = (if presence opts gray prev < presenceMin opts then BandNone
                              else if of_nat (activeCells opts gray prev) \<ge> crowdMinCells opts then Crowd
                              else Few)
                  in (s\<lparr>last_gray := Some gray\<rparr>,
                      [\<lparr>peopleBand = band, motion = m, pixelsOk = True\<rparr>]))))"

datatype scene_event = SceneTick scene_sample | SceneDetach

text \<open>The interval fires only while it has not been cleared.\<close>

fun scene_step ::
  "SceneProbeOptions \<Rightarrow> scene_event \<Rightarrow> scene_probe \<Rightarrow> scene_probe \<times> SceneProbeResult list" where
  "scene_step opts (SceneTick inp) s = (if timer_on s then scene_tick opts inp s else (s, []))"
| "scene_step opts SceneDetach s = (s\<lparr>timer_on := False\<rparr>, [])"

fun scene_run ::
  "SceneProbeOptions \<Rightarrow> scene_event list \<Rightarrow> scene_probe \<Rightarrow> scene_probe \<times> SceneProbeResult list" where
  "scene_run opts [] s = (s, [])"
| "scene_run opts (e # es) s =
     (let (s1, out1) = scene_step opts e s;
          (s2, out2) = scene_run opts es s1
      in (s2, out1 @ out2))"

definition attachSceneProbe :: "bool \<Rightarrow> scene_probe" where
  "attachSceneProbe has_ctx =
     \<lparr>last_gray = None, scene_pixelsOk = True, timer_on = True, scene_ctx_ok = has_ctx\<rparr>"






















lemma scene_tick_invalid_grid:
  "scene_ctx_ok s \<Longrightarrow> 2 \<le> readyState inp \<Longrightarrow> videoWidth inp \<noteq> 0 \<Longrightarrow> videoHeight inp \<noteq> 0 \<Longrightarrow>
   frame inp = Pixels img \<Longrightarrow> last_gray s = Some prev \<Longrightarrow> \<not> array_length_ok (grid_cells opts) \<Longrightarrow>
   scene_tick opts inp s =
     (s\<lparr>scene_pixelsOk := False, timer_on := False\<rparr>,
      [\<lparr>peopleBand = BandUnknown, motion = 0, pixelsOk = False\<rparr>])"
  by (simp add: scene_tick_def Let_def scene_failed_def)





text \<open>
  The grid sizes 2.5 and 3 multiply to 7.5: the first sample is delivered as usual, and on the
  second \<open>new Array(7.5)\<close> throws although the pixels were read.
\<close>

definition demo_sample :: scene_sample where
  "demo_sample = \<lparr>readyState = 4, videoWidth = 640, videoHeight = 360, frame = Pixels dark_frame\<rparr>"

















fun is_pixel_tick :: "int \<times> probe_event \<Rightarrow> bool" where
  "is_pixel_tick (now, PixelTick sample) = True"
| "is_pixel_tick (now, ev) = False"

fun is_media_error :: "int \<times> probe_event \<Rightarrow> bool" where
  "is_media_error (now, MediaError code) = True"
| "is_media_error (now, ev) = False"

lemma emit_keeps_pixelDisabled: "pixelDisabled (fst (emit n p)) = pixelDisabled p"
  by (simp add: emit_def)

lemma frozen_keeps_pixelDisabled: "pixelDisabled (fst (frozen_tick opts fmt now v p)) = pixelDisabled p"
  by (simp add: frozen_tick_def emit_def Let_def split: option.splits)

lemma pixel_tick_disabled: "pixelDisabled p \<Longrightarrow> pixel_tick opts fmt now sample p = (p, [])"
  by (simp add: pixel_tick_def)

lemma step_keeps_pixelDisabled:
  "pixelDisabled p \<Longrightarrow> pixelDisabled (fst (probe_step opts fmt e p))"
  by (cases e; cases "snd e")
    (simp_all add: emit_keeps_pixelDisabled frozen_keeps_pixelDisabled pixel_tick_disabled)

lemma step_pixel_disabled:
  "pixelDisabled p \<Longrightarrow> is_pixel_tick e \<Longrightarrow> probe_step opts fmt e p = (p, [])"
  by (cases e; cases "snd e") (simp_all add: pixel_tick_disabled)

lemma run_keeps_pixelDisabled:
  "pixelDisabled p \<Longrightarrow> pixelDisabled (fst (probe_run opts fmt evs p))"
proof (induction evs arbitrary: p)
  case Nil
  then show ?case by simp
next
  case (Cons e es)
  from Cons.IH [OF step_keeps_pixelDisabled [OF Cons.prems, of opts fmt e]]
  show ?case by (simp add: split_beta)
qed

lemma run_ignores_pixel_ticks:
  "pixelDisabled p \<Longrightarrow>
   probe_run opts fmt evs p = probe_run opts fmt (filter (\<lambda>e. \<not> is_pixel_tick e) evs) p"
proof (induction evs arbitrary: p)
  case Nil
  then show ?case by simp
next
  case (Cons e es)
  show ?case
  proof (cases "is_pixel_tick e")
    case True
    with Cons.IH [OF Cons.prems] Cons.prems show ?thesis
      by (simp add: step_pixel_disabled)
  next
    case False
    with Cons.IH [OF step_keeps_pixelDisabled [OF Cons.prems, of opts fmt e]]
    show ?thesis by (simp add: split_beta)
  qed
qed

lemma emit_states: "h \<in> set (snd (emit n p)) \<Longrightarrow> state h = state n"
  by (auto simp: emit_def split: if_splits)

lemma frozen_no_error: "h \<in> set (snd (frozen_tick opts fmt now v p)) \<Longrightarrow> state h \<noteq> Error"
  by (auto simp: frozen_tick_def Let_def split: option.splits if_splits dest!: emit_states)

lemma pixel_no_error: "h \<in> set (snd (pixel_tick opts fmt now s p)) \<Longrightarrow> state h \<noteq> Error"
  by (cases s)
    (auto simp: pixel_tick_def Let_def split: if_splits prod.splits dest!: emit_states
      dest: arg_cong [where f = snd])

lemma step_no_error:
  "\<not> is_media_error e \<Longrightarrow> h \<in> set (snd (probe_step opts fmt e p)) \<Longrightarrow> state h \<noteq> Error"
  by (cases e; cases "snd e")
    (auto split: if_splits dest!: emit_states dest: frozen_no_error pixel_no_error)

lemma run_no_error:
  "\<forall>e\<in>set evs. \<not> is_media_error e \<Longrightarrow>
   \<forall>h\<in>set (snd (probe_run opts fmt evs p)). state h \<noteq> Error"
proof (induction evs arbitrary: p)
  case Nil
  then show ?case by simp
next
  case (Cons e es)
  then show ?case
    by (auto simp: split_beta dest: step_no_error)
qed

lemma scene_run_stopped:
  "\<not> timer_on s \<Longrightarrow> snd (scene_run opts evs s) = [] \<and> \<not> timer_on (fst (scene_run opts evs s))"
proof (induction evs arbitrary: s)
  case Nil
  then show ?case by simp
next
  case (Cons e es)
  show ?case
  proof (cases e)
    case (SceneTick inp)
    with Cons show ?thesis by (simp add: split_beta)
  next
    case SceneDetach
    with Cons.IH [of "s\<lparr>timer_on := False\<rparr>"] show ?thesis by (simp add: split_beta)
  qed
qed


text \<open>
  Claim C7. Health monitor: a pixel read that throws delivers no reading and sets
  \<open>pixelDisabled\<close>; once it is set it stays set, a pixel sample changes nothing and
  delivers nothing (the frame is not read again), and the attachment behaves as if the
  pixel samples were not there; a reading with state error is delivered only in answer to
  a media error event. Scene probe: a pixel read that throws delivers unknown with
  \<open>pixelsOk = false\<close> and clears the interval, after which nothing is delivered.
\<close>

theorem pixel_fault_is_contained:
  "(\<not> disposed p \<and> enablePixelProbe opts \<and> \<not> pixelDisabled p \<and> ctx_ok p \<and> state (health p) = Ok \<longrightarrow>
      probe_step opts fmt (now, PixelTick Tainted) p = (p\<lparr>pixelDisabled := True\<rparr>, [])) \<and>
   (pixelDisabled p \<longrightarrow>
      probe_step opts fmt (now, PixelTick sample) p = (p, []) \<and>
      pixelDisabled (fst (probe_run opts fmt evs p)) \<and>
      probe_run opts fmt evs p = probe_run opts fmt (filter (\<lambda>e. \<not> is_pixel_tick e) evs) p) \<and>
   ((\<forall>e\<in>set evs. \<not> is_media_error e) \<longrightarrow>
      (\<forall>h\<in>set (snd (probe_run opts fmt evs p)). state h \<noteq> Error)) \<and>
   (timer_on s \<and> scene_ctx_ok s \<and> 2 \<le> readyState inp \<and> videoWidth inp \<noteq> 0 \<and> videoHeight inp \<noteq> 0 \<and>
    frame inp = Tainted \<longrightarrow>
      scene_step sopts (SceneTick inp) s =
        (s\<lparr>scene_pixelsOk := False, timer_on := False\<rparr>,
         [\<lparr>peopleBand = BandUnknown, motion = 0, pixelsOk = False\<rparr>])) \<and>
   (\<not> timer_on s \<longrightarrow>
      snd (scene_run sopts sevs s) = [] \<and> \<not> timer_on (fst (scene_run sopts sevs s)))"
proof (intro conjI impI)
  assume "\<not> disposed p \<and> enablePixelProbe opts \<and> \<not> pixelDisabled p \<and> ctx_ok p \<and> state (health p) = Ok"
  then show "probe_step opts fmt (now, PixelTick Tainted) p = (p\<lparr>pixelDisabled := True\<rparr>, [])"
    by (simp add: pixel_tick_def)
next
  assume d: "pixelDisabled p"
  show "probe_step opts fmt (now, PixelTick sample) p = (p, [])"
    using d by (simp add: pixel_tick_disabled)
  show "pixelDisabled (fst (probe_run opts fmt evs p))"
    using d by (rule run_keeps_pixelDisabled)
  show "probe_run opts fmt evs p = probe_run opts fmt (filter (\<lambda>e. \<not> is_pixel_tick e) evs) p"
    using d by (rule run_ignores_pixel_ticks)
next
  assume "\<forall>e\<in>set evs. \<not> is_media_error e"
  then show "\<forall>h\<in>set (snd (probe_run opts fmt evs p)). state h \<noteq> Error"
    by (rule run_no_error)
next
  assume "timer_on s \<and> scene_ctx_ok s \<and> 2 \<le> readyState inp \<and> videoWidth inp \<noteq> 0 \<and> videoHeight inp \<noteq> 0 \<and>
    frame inp = Tainted"
  then show "scene_step sopts (SceneTick inp) s =
        (s\<lparr>scene_pixelsOk := False, timer_on := False\<rparr>,
         [\<lparr>peopleBand = BandUnknown, motion = 0, pixelsOk = False\<rparr>])"
    by (simp add: scene_tick_def scene_failed_def)
next
  assume t: "\<not> timer_on s"
  show "snd (scene_run sopts sevs s) = []"
    using scene_run_stopped [OF t] by simp
  show "\<not> timer_on (fst (scene_run sopts sevs s))"
    using scene_run_stopped [OF t] by simp
qed


definition demo_text :: number_text where
  "demo_text = \<lparr>num_text = (\<lambda>x. ''8''), toFixed2 = (\<lambda>x. ''1.00'')\<rparr>"

definition tainted_sample :: scene_sample where
  "tainted_sample = \<lparr>readyState = 4, videoWidth = 640, videoHeight = 360, frame = Tainted\<rparr>"

theorem pixel_fault_is_contained_witness:
  "probe_step pixel_probe_options demo_text (800, PixelTick Tainted)
      (fst (attachVideoProbe 0 playing_video True))
     = ((fst (attachVideoProbe 0 playing_video True))\<lparr>pixelDisabled := True\<rparr>, []) \<and>
   probe_run pixel_probe_options demo_text
      [(1600, PixelTick (Pixels dark_frame)), (2000, Waiting), (2400, PixelTick (Pixels dark_frame))]
      ((fst (attachVideoProbe 0 playing_video True))\<lparr>pixelDisabled := True\<rparr>)
     = probe_run pixel_probe_options demo_text [(2000, Waiting)]
      ((fst (attachVideoProbe 0 playing_video True))\<lparr>pixelDisabled := True\<rparr>) \<and>
   map state (snd (probe_run pixel_probe_options demo_text
      [(800, PixelTick Tainted), (1600, PixelTick (Pixels dark_frame)), (2000, Waiting),
       (2400, PixelTick (Pixels dark_frame))]
      (fst (attachVideoProbe 0 playing_video True)))) = [Buffering] \<and>
   scene_step default_scene_options (SceneTick tainted_sample) (attachSceneProbe True)
     = ((attachSceneProbe True)\<lparr>scene_pixelsOk := False, timer_on := False\<rparr>,
        [\<lparr>peopleBand = BandUnknown, motion = 0, pixelsOk = False\<rparr>]) \<and>
   snd (scene_run default_scene_options [SceneTick demo_sample, SceneTick tainted_sample]
      ((attachSceneProbe True)\<lparr>scene_pixelsOk := False, timer_on := False\<rparr>)) = []"
proof -
  let ?p0 = "fst (attachVideoProbe 0 playing_video True)"
  let ?p1 = "?p0\<lparr>pixelDisabled := True\<rparr>"
  let ?evs = "[(1600, PixelTick (Pixels dark_frame)), (2000, Waiting), (2400, PixelTick (Pixels dark_frame))]"
  let ?s0 = "attachSceneProbe True"
  let ?s1 = "?s0\<lparr>scene_pixelsOk := False, timer_on := False\<rparr>"
  let ?sevs = "[SceneTick demo_sample, SceneTick tainted_sample]"
  have reach: "\<not> disposed ?p0 \<and> enablePixelProbe pixel_probe_options \<and> \<not> pixelDisabled ?p0 \<and>
      ctx_ok ?p0 \<and> state (health ?p0) = Ok"
    by (simp add: attachVideoProbe_def emit_def pixel_probe_options_def default_probe_options_def)
  have off: "pixelDisabled ?p1" by simp
  have quiet: "\<forall>e\<in>set ?evs. \<not> is_media_error e" by simp
  have taint: "timer_on ?s0 \<and> scene_ctx_ok ?s0 \<and> 2 \<le> readyState tainted_sample \<and>
      videoWidth tainted_sample \<noteq> 0 \<and> videoHeight tainted_sample \<noteq> 0 \<and> frame tainted_sample = Tainted"
    by (simp add: attachSceneProbe_def tainted_sample_def)
  have stopped: "\<not> timer_on ?s1" by simp
  note a = pixel_fault_is_contained [where p = ?p0 and opts = pixel_probe_options and fmt = demo_text
      and now = 800 and s = ?s0 and inp = tainted_sample and sopts = default_scene_options]
  note b = pixel_fault_is_contained [where p = ?p1 and opts = pixel_probe_options and fmt = demo_text
      and evs = ?evs and s = ?s1 and sopts = default_scene_options and sevs = ?sevs]
  have 1: "probe_step pixel_probe_options demo_text (800, PixelTick Tainted) ?p0 = (?p1, [])"
    by (rule a [THEN conjunct1, THEN mp, OF reach])
  have 2: "probe_run pixel_probe_options demo_text ?evs ?p1
      = probe_run pixel_probe_options demo_text (filter (\<lambda>e. \<not> is_pixel_tick e) ?evs) ?p1"
    by (rule b [THEN conjunct2, THEN conjunct1, THEN mp, OF off, THEN conjunct2, THEN conjunct2])
  have r1: "probe_run pixel_probe_options demo_text ((800, PixelTick Tainted) # ?evs) ?p0
      = probe_run pixel_probe_options demo_text ?evs ?p1"
    by (simp only: probe_run.simps(2) [where es = ?evs] 1 Let_def prod.case append_Nil
        split_beta prod.collapse fst_conv snd_conv)
  have r2: "filter (\<lambda>e. \<not> is_pixel_tick e) ?evs = [(2000, Waiting)]" by simp
  have r3: "map state (snd (probe_run pixel_probe_options demo_text [(2000, Waiting)] ?p1)) = [Buffering]"
    by (simp add: emit_def attachVideoProbe_def)
  have 3: "map state (snd (probe_run pixel_probe_options demo_text ((800, PixelTick Tainted) # ?evs) ?p0))
      = [Buffering]"
    by (simp only: r1 2 r2 r3)
  have 4: "scene_step default_scene_options (SceneTick tainted_sample) ?s0 =
      (?s1, [\<lparr>peopleBand = BandUnknown, motion = 0, pixelsOk = False\<rparr>])"
    by (rule a [THEN conjunct2, THEN conjunct2, THEN conjunct2, THEN conjunct1, THEN mp, OF taint])
  have 5: "snd (scene_run default_scene_options ?sevs ?s1) = []"
    by (rule b [THEN conjunct2, THEN conjunct2, THEN conjunct2, THEN conjunct2, THEN mp, OF stopped,
          THEN conjunct1])
  from 1 2 [unfolded r2] 3 4 5 show ?thesis by blast
qed

section \<open>Behavioural event detector (src/components/VideoTile.tsx, src/lib/aiProbe.ts)\<close>

subsection \<open>Detections and the tracked person\<close>

text \<open>What the person detector returns for one object; \<open>det_score\<close> is \<open>None\<close> when absent.\<close>

record detection =
  det_class :: string
  det_score :: "rat option"
  det_x :: rat
  det_y :: rat
  det_w :: rat
  det_h :: rat

record box =
  box_x :: rat
  box_y :: rat
  box_w :: rat
  box_h :: rat
  box_score :: rat

definition score_or_0 :: "detection \<Rightarrow> rat" where
  "score_or_0 d = (case det_score d of None \<Rightarrow> 0 | Some sc \<Rightarrow> sc)"

definition to_box :: "detection \<Rightarrow> box" where
  "to_box d = \<lparr>box_x = det_x d, box_y = det_y d, box_w = det_w d, box_h = det_h d,
              box_score = score_or_0 d\<rparr>"

definition area :: "box \<Rightarrow> rat" where
  "area b = fmul (box_w b) (box_h b)"

text \<open>The persons among the detections, at or above the score floor, largest box first.\<close>

definition people_of :: "rat \<Rightarrow> detection list \<Rightarrow> box list" where
  "people_of minScore detections =
     js_sort (\<lambda>a b. fsub (area b) (area a))
       (map to_box (filter (\<lambda>d. det_class d = ''person'' \<and> score_or_0 d \<ge> minScore) detections))"

fun countToBand :: "nat \<Rightarrow> PeopleBand" where
  "countToBand n = (if n \<le> 0 then BandNone else if n \<le> 3 then Few else Crowd)"

definition clamp01 :: "rat \<Rightarrow> rat" where
  "clamp01 x = max 0 (min 1 x)"

text \<open>\<open>Math.round\<close>: to the nearest integer, halves upwards.\<close>

definition js_round :: "rat \<Rightarrow> int" where
  "js_round x = \<lfloor>x + 1 / 2\<rfloor>"

datatype AIFallState = FallNone | FallRisk | FallCritical

record fall_reading =
  fall_state :: AIFallState
  fall_confidence :: rat
  fall_reasons :: "string list"

subsection \<open>The tile's detector (VideoTile.tsx)\<close>

record AIState =
  ready :: bool
  personCount :: nat
  band :: PeopleBand
  fall :: fall_reading
  ai_motion :: rat
  ts :: int

text \<open>The variables the effect closes over for its fall heuristic.\<close>

record tile_track =
  lastCenterY :: "rat option"
  lastAspect :: "rat option"
  lastTs :: "int option"
  postDropStillStart :: "int option"
  cooldownUntil :: int
  emaMotion :: rat

text \<open>
  What is fixed for one run of the effect: the speed policy's inputs, whether the health
  state the effect closed over is ok, and whether the canvas gave a 2d context.
\<close>

record tile_config =
  looksLikePatient :: bool
  isWebcam :: bool
  health_ok :: bool
  tile_ctx_ok :: bool

definition everyMs :: "tile_config \<Rightarrow> rat" where
  "everyMs cfg = (if looksLikePatient cfg then 550 else if isWebcam cfg then 850 else 1800)"

definition minScore :: "tile_config \<Rightarrow> rat" where
  "minScore cfg = (if looksLikePatient cfg \<or> isWebcam cfg then lit (38 / 100) else lit (45 / 100))"

text \<open>
  The quantities the heuristic computes from the tracked box \<open>p\<close> and the previous sample
  (\<open>lcy\<close>, \<open>lts\<close>): normalised vertical movement, elapsed time, the drop and posture-flip
  tests, the motion average and the little-motion test.
\<close>

definition centerY_of :: "box \<Rightarrow> rat" where
  "centerY_of p = fadd (box_y p) (fdiv (box_h p) 2)"

definition aspect_of :: "box \<Rightarrow> rat" where
  "aspect_of p = fdiv (box_h p) (max 1 (box_w p))"

definition tile_dyNorm :: "nat \<Rightarrow> box \<Rightarrow> rat \<Rightarrow> rat" where
  "tile_dyNorm outH p lcy = fdiv (fsub (centerY_of p) lcy) (max 1 (of_nat outH))"

definition elapsed :: "int \<Rightarrow> int \<Rightarrow> int" where
  "elapsed now lts = max 1 (now - lts)"

definition tile_drop :: "nat \<Rightarrow> int \<Rightarrow> box \<Rightarrow> rat \<Rightarrow> int \<Rightarrow> bool" where
  "tile_drop outH now p lcy lts = (tile_dyNorm outH p lcy > lit (12 / 100) \<and> elapsed now lts < 1400)"

definition postureFlip :: "rat option \<Rightarrow> box \<Rightarrow> bool" where
  "postureFlip la p =
     (case la of None \<Rightarrow> False | Some a \<Rightarrow> a > lit (105 / 100) \<and> aspect_of p < lit (95 / 100))"

definition tile_motion :: "nat \<Rightarrow> box \<Rightarrow> rat \<Rightarrow> rat" where
  "tile_motion outH p lcy = min 1 (fmul \<bar>tile_dyNorm outH p lcy\<bar> 3)"

definition next_ema :: "rat \<Rightarrow> rat \<Rightarrow> rat" where
  "next_ema ema m =
     max (lit (4 / 1000))
       (min (lit (25 / 100)) (fadd (fmul ema (lit (92 / 100))) (fmul m (lit (8 / 100)))))"

definition tile_littleMotion :: "nat \<Rightarrow> box \<Rightarrow> rat \<Rightarrow> rat \<Rightarrow> bool" where
  "tile_littleMotion outH p lcy ema =
     (\<bar>tile_dyNorm outH p lcy\<bar> <
        min (lit (12 / 1000)) (fmul (next_ema ema (tile_motion outH p lcy)) (lit (9 / 10))))"

text \<open>
  The tick from the detections on (after the lock): the new tracking variables and the
  state handed to \<open>setAi\<close>. \<open>outH\<close> is the height of the canvas, \<open>now\<close> the clock.
\<close>

definition tile_infer ::
  "tile_config \<Rightarrow> number_text \<Rightarrow> nat \<Rightarrow> int \<Rightarrow> detection list \<Rightarrow> tile_track \<Rightarrow> tile_track \<times> AIState" where
  "tile_infer cfg fmt outH now detections t =
     (let people = people_of (minScore cfg) detections;
          cnt = length people;
          b = countToBand cnt
      in case people of
        [] \<Rightarrow>
          (t\<lparr>lastCenterY := None, lastAspect := None, lastTs := None, postDropStillStart := None,
             emaMotion := max (lit (6 / 1000)) (fmul (emaMotion t) (lit (95 / 100)))\<rparr>,
           \<lparr>ready = True, personCount = cnt, band = b,
            fall = \<lparr>fall_state = FallNone, fall_confidence = 0, fall_reasons = []\<rparr>,
            ai_motion = 0, ts = now\<rparr>)
      | p # rest \<Rightarrow>
          (case (lastCenterY t, lastTs t) of
             (Some lcy, Some lts) \<Rightarrow>
               (let dyNorm = tile_dyNorm outH p lcy;
                    m = tile_motion outH p lcy;
                    ema = next_ema (emaMotion t) m;
                    drop = tile_drop outH now p lcy lts;
                    flip = postureFlip (lastAspect t) p;
                    reasons0 = (if drop then [''drop:'' @ toFixed2 fmt dyNorm] else []) @
                               (if flip then [''posture_flip''] else []);
                    t1 = t\<lparr>emaMotion := ema\<rparr>;
                    (t2, f) =
                      (if drop \<or> flip then
                         (t1\<lparr>postDropStillStart := Some now\<rparr>,
                          \<lparr>fall_state = FallRisk,
                           fall_confidence =
                             clamp01 (fadd (fadd (lit (62 / 100)) (fmul dyNorm (lit (18 / 10))))
                                           (if flip then lit (18 / 100) else 0)),
                           fall_reasons = reasons0\<rparr>)
                       else case postDropStillStart t1 of
                         None \<Rightarrow>
                           (t1, \<lparr>fall_state = FallNone, fall_confidence = 0, fall_reasons = reasons0\<rparr>)
                       | Some since \<Rightarrow>
                           (let stillAge = now - since in
                            if tile_littleMotion outH p lcy (emaMotion t) \<and> stillAge > 900 then
                              (t1\<lparr>cooldownUntil := now + 12000, postDropStillStart := None\<rparr>,
                               \<lparr>fall_state = FallCritical,
                                fall_confidence =
                                  clamp01 (fadd (fadd (lit (78 / 100))
                                                      (fmul (fdiv (of_int stillAge) 3200) (lit (18 / 100))))
                                                (if aspect_of p < lit (9 / 10) then lit (8 / 100) else 0)),
                                fall_reasons = reasons0 @
                                  [''still:'' @ num_text fmt (of_int (js_round (fdiv (of_int stillAge) 1000))) @ ''s'']\<rparr>)
                            else if stillAge > 4500 then
                              (t1\<lparr>postDropStillStart := None\<rparr>,
                               \<lparr>fall_state = FallNone, fall_confidence = 0, fall_reasons = reasons0\<rparr>)
                            else
                              (t1, \<lparr>fall_state = FallNone, fall_confidence = 0, fall_reasons = reasons0\<rparr>)))
                in (t2\<lparr>lastCenterY := Some (centerY_of p), lastAspect := Some (aspect_of p),
                       lastTs := Some now\<rparr>,
                    \<lparr>ready = True, personCount = cnt, band = b, fall = f, ai_motion = m, ts = now\<rparr>))
           | _ \<Rightarrow>
               (t\<lparr>lastCenterY := Some (centerY_of p), lastAspect := Some (aspect_of p),
                  lastTs := Some now\<rparr>,
                \<lparr>ready = True, personCount = cnt, band = b,
                 fall = \<lparr>fall_state = FallNone, fall_confidence = 0, fall_reasons = []\<rparr>,
                 ai_motion = 0, ts = now\<rparr>)))"

text \<open>What the tile reads from the video element when its timer fires.\<close>

record video_dims =
  vid_w :: nat
  vid_h :: nat
  vid_ready :: nat

datatype tile_effect = SetAi AIState | SetScene SceneProbeResult | SetTimeout rat

text \<open>
  A tick is suspended twice: while the model is awaited and while the inference runs under
  the lock. \<open>Scheduled\<close>: a timeout is pending; \<open>AwaitingModel outH\<close>: the tick waits for
  \<open>getCocoModel()\<close>; \<open>Inferring outH\<close>: it holds the lock and waits for \<open>model.detect\<close>;
  \<open>Halted\<close>: the tick has ended without a new timeout.
\<close>

datatype tile_phase = Scheduled | AwaitingModel nat | Inferring nat | Halted

record tile =
  cfg :: tile_config
  stopped :: bool
  phase :: tile_phase
  track :: tile_track
  ai :: AIState

datatype 'a outcome = Returned 'a | Threw string

datatype tile_event =
  TimerFires video_dims int
| ModelReady
| InferenceDone "detection list outcome" int
| Cleanup

definition unknown_scene :: SceneProbeResult where
  "unknown_scene = \<lparr>peopleBand = BandUnknown, motion = 0, pixelsOk = True\<rparr>"

text \<open>The tick up to \<open>await getCocoModel()\<close>; \<open>t0\<close> is the clock.\<close>

definition tile_tick_start :: "video_dims \<Rightarrow> int \<Rightarrow> tile \<Rightarrow> tile \<times> tile_effect list" where
  "tile_tick_start v t0 tile =
     (if stopped tile then (tile\<lparr>phase := Halted\<rparr>, [])
      else if \<not> tile_ctx_ok (cfg tile) \<or> vid_w v = 0 \<or> vid_h v = 0 \<or> vid_ready v < 2 then
        (let a = (ai tile)\<lparr>ready := False, ts := t0\<rparr>
         in (tile\<lparr>ai := a\<rparr>, [SetAi a, SetScene unknown_scene, SetTimeout (min 900 (everyMs (cfg tile)))]))
      else if \<not> health_ok (cfg tile) then
        (let a = (ai tile)\<lparr>ready := True, personCount := 0, band := BandUnknown,
                         fall := \<lparr>fall_state = FallNone, fall_confidence = 0,
                                  fall_reasons = [''stream_not_ok'']\<rparr>,
                         ai_motion := 0, ts := t0\<rparr>
         in (tile\<lparr>ai := a\<rparr>, [SetAi a, SetScene unknown_scene, SetTimeout (everyMs (cfg tile))]))
      else if t0 < cooldownUntil (track tile) then (tile, [SetTimeout (everyMs (cfg tile))])
      else
        (let outW = min 360 (vid_w v);
             outH = max 160 (js_round (fdiv (fmul (of_nat outW) (of_nat (vid_h v)))
                                            (of_nat (max 1 (vid_w v)))))
         in (tile\<lparr>phase := AwaitingModel (nat outH)\<rparr>, [])))"

text \<open>
  \<open>withAiLock\<close>, entered once the model is there: with the flag set the tick gives up and
  asks for a new timeout; otherwise it sets the flag and starts the inference.
\<close>

definition tile_lock :: "nat \<Rightarrow> bool \<times> tile \<Rightarrow> (bool \<times> tile) \<times> tile_effect list" where
  "tile_lock outH bt =
     (case bt of (aiBusy, tile) \<Rightarrow>
        if aiBusy then ((aiBusy, tile\<lparr>phase := Scheduled\<rparr>), [SetTimeout (everyMs (cfg tile))])
        else ((True, tile\<lparr>phase := Inferring outH\<rparr>), []))"

text \<open>
  The end of the inference: \<open>finally\<close> clears the flag; detections are processed and
  delivered, an exception leaves the tick (no new timeout).
\<close>

definition tile_finish ::
  "number_text \<Rightarrow> nat \<Rightarrow> detection list outcome \<Rightarrow> int \<Rightarrow> bool \<times> tile
     \<Rightarrow> (bool \<times> tile) \<times> tile_effect list" where
  "tile_finish fmt outH result now bt =
     (case bt of (aiBusy, tile) \<Rightarrow>
        (case result of
           Threw msg \<Rightarrow> ((False, tile\<lparr>phase := Halted\<rparr>), [])
         | Returned detections \<Rightarrow>
             (let (t', a) = tile_infer (cfg tile) fmt outH now detections (track tile)
              in ((False, tile\<lparr>phase := Scheduled, track := t', ai := a\<rparr>),
                  [SetAi a,
                   SetScene \<lparr>peopleBand = band a, motion = ai_motion a, pixelsOk = True\<rparr>,
                   SetTimeout (everyMs (cfg tile))]))))"

text \<open>
  One event of one tile, given the process-wide flag \<open>aiBusy\<close>. An event that is not due
  in the tile's phase does not occur.
\<close>

definition tile_step ::
  "number_text \<Rightarrow> tile_event \<Rightarrow> bool \<times> tile \<Rightarrow> (bool \<times> tile) \<times> tile_effect list" where
  "tile_step fmt ev bt =
     (case bt of (aiBusy, tile) \<Rightarrow>
        (case (ev, phase tile) of
           (TimerFires v t0, Scheduled) \<Rightarrow>
             (let (tile', eff) = tile_tick_start v t0 tile in ((aiBusy, tile'), eff))
         | (ModelReady, AwaitingModel outH) \<Rightarrow> tile_lock outH (aiBusy, tile)
         | (InferenceDone result now, Inferring outH) \<Rightarrow> tile_finish fmt outH result now (aiBusy, tile)
         | (Cleanup, ph) \<Rightarrow> ((aiBusy, tile\<lparr>stopped := True\<rparr>), [])
         | _ \<Rightarrow> ((aiBusy, tile), [])))"

definition initial_track :: tile_track where
  "initial_track =
     \<lparr>lastCenterY = None, lastAspect = None, lastTs = None, postDropStillStart = None,
      cooldownUntil = 0, emaMotion = lit (2 / 100)\<rparr>"

definition initial_ai :: AIState where
  "initial_ai =
     \<lparr>ready = False, personCount = 0, band = BandUnknown,
      fall = \<lparr>fall_state = FallNone, fall_confidence = 0, fall_reasons = []\<rparr>,
      ai_motion = 0, ts = 0\<rparr>"

text \<open>The effect has run for a tile whose pixels can be read: the first tick is due.\<close>

definition attach_tile :: "tile_config \<Rightarrow> tile" where
  "attach_tile c =
     \<lparr>cfg = c, stopped = False, phase = Scheduled, track = initial_track, ai = initial_ai\<rparr>"

subsection \<open>The wall: all tiles and the one inference slot\<close>

record wall =
  aiBusy :: bool
  tiles :: "tile list"

definition wall_step ::
  "number_text \<Rightarrow> nat \<times> tile_event \<Rightarrow> wall \<Rightarrow> wall \<times> (nat \<times> tile_effect) list" where
  "wall_step fmt iev w =
     (case iev of (i, ev) \<Rightarrow>
        if i < length (tiles w) then
          (let ((b, tile), eff) = tile_step fmt ev (aiBusy w, tiles w ! i)
           in (\<lparr>aiBusy = b, tiles = (tiles w)[i := tile]\<rparr>, map (Pair i) eff))
        else (w, []))"

fun wall_run ::
  "number_text \<Rightarrow> (nat \<times> tile_event) list \<Rightarrow> wall \<Rightarrow> wall \<times> (nat \<times> tile_effect) list" where
  "wall_run fmt [] w = (w, [])"
| "wall_run fmt (e # es) w =
     (let (w1, out1) = wall_step fmt e w;
          (w2, out2) = wall_run fmt es w1
      in (w2, out1 @ out2))"

definition initial_wall :: "tile_config list \<Rightarrow> wall" where
  "initial_wall cs = \<lparr>aiBusy = False, tiles = map attach_tile cs\<rparr>"

fun inferring :: "tile \<Rightarrow> bool" where
  "inferring tile = (case phase tile of Inferring outH \<Rightarrow> True | _ \<Rightarrow> False)"

subsection \<open>The stand-alone probe (aiProbe.ts)\<close>

record AIProbeOptions =
  ap_everyMs :: rat
  ap_minScore :: rat
  enableFall :: bool

definition default_ai_options :: AIProbeOptions where
  "default_ai_options = \<lparr>ap_everyMs = 650, ap_minScore = lit (45 / 100), enableFall = True\<rparr>"

record AIProbeResult =
  r_personCount :: nat
  r_peopleBoxes :: "box list"
  r_fall :: fall_reading
  r_ts :: int
  r_ready :: bool

record probe_track =
  ap_lastCenterY :: "rat option"
  ap_lastTs :: "int option"
  ap_lastAspect :: "rat option"
  ap_postDropStillStart :: "int option"
  ap_cooldownUntil :: int

definition ap_dyNorm :: "nat \<Rightarrow> box \<Rightarrow> rat \<Rightarrow> rat" where
  "ap_dyNorm vh p lcy = fdiv (fsub (centerY_of p) lcy) (of_nat vh)"

definition ap_drop :: "nat \<Rightarrow> int \<Rightarrow> box \<Rightarrow> rat \<Rightarrow> int \<Rightarrow> bool" where
  "ap_drop vh now p lcy lts = (ap_dyNorm vh p lcy > lit (12 / 100) \<and> elapsed now lts < 1200)"

definition ap_littleMotion :: "nat \<Rightarrow> box \<Rightarrow> rat \<Rightarrow> bool" where
  "ap_littleMotion vh p lcy = (\<bar>ap_dyNorm vh p lcy\<bar> < lit (1 / 100))"

text \<open>The tick from the detections on: the new tracking variables and the result for \<open>onResult\<close>.\<close>

definition ap_infer ::
  "AIProbeOptions \<Rightarrow> number_text \<Rightarrow> nat \<Rightarrow> int \<Rightarrow> detection list \<Rightarrow> probe_track
     \<Rightarrow> probe_track \<times> AIProbeResult" where
  "ap_infer opts fmt vh now detections t =
     (let people = people_of (ap_minScore opts) detections;
          none = \<lparr>fall_state = FallNone, fall_confidence = 0, fall_reasons = []\<rparr>;
          (t', f) =
            (case people of
               [] \<Rightarrow> (t, none)
             | p # rest \<Rightarrow>
                 if enableFall opts \<and> now \<ge> ap_cooldownUntil t then
                   (let (t2, f2) =
                      (case (ap_lastCenterY t, ap_lastTs t) of
                         (Some lcy, Some lts) \<Rightarrow>
                           (let dyNorm = ap_dyNorm vh p lcy;
                                drop = ap_drop vh now p lcy lts;
                                flip = postureFlip (ap_lastAspect t) p;
                                reasons0 = (if drop then [''drop:'' @ toFixed2 fmt dyNorm] else []) @
                                           (if flip then [''posture_flip''] else [])
                            in if drop \<or> flip then
                                 (t\<lparr>ap_postDropStillStart := Some now\<rparr>,
                                  \<lparr>fall_state = FallRisk,
                                   fall_confidence =
                                     clamp01 (fadd (fadd (lit (65 / 100)) (fmul dyNorm (lit (18 / 10))))
                                                   (if flip then lit (15 / 100) else 0)),
                                   fall_reasons = reasons0\<rparr>)
                               else case ap_postDropStillStart t of
                                 None \<Rightarrow> (t, none\<lparr>fall_reasons := reasons0\<rparr>)
                               | Some since \<Rightarrow>
                                   (let stillAge = now - since in
                                    if ap_littleMotion vh p lcy \<and> stillAge > 900 then
                                      (t\<lparr>ap_cooldownUntil := now + 12000, ap_postDropStillStart := None\<rparr>,
                                       \<lparr>fall_state = FallCritical,
                                        fall_confidence =
                                          clamp01 (fadd (fadd (lit (78 / 100))
                                                              (fmul (fdiv (of_int stillAge) 3000) (lit (2 / 10))))
                                                        (if aspect_of p < lit (9 / 10) then lit (8 / 100) else 0)),
                                        fall_reasons = reasons0 @
                                          [''still:'' @ num_text fmt (of_int (js_round (fdiv (of_int stillAge) 1000)))
                                             @ ''s'']\<rparr>)
                                    else if stillAge > 4000 then
                                      (t\<lparr>ap_postDropStillStart := None\<rparr>, none\<lparr>fall_reasons := reasons0\<rparr>)
                                    else (t, none\<lparr>fall_reasons := reasons0\<rparr>)))
                       | _ \<Rightarrow> (t, none))
                    in (t2\<lparr>ap_lastCenterY := Some (centerY_of p), ap_lastAspect := Some (aspect_of p),
                           ap_lastTs := Some now\<rparr>, f2))
                 else (t, none))
      in (t', \<lparr>r_personCount = length people, r_peopleBoxes = people, r_fall = f,
               r_ts = now, r_ready = True\<rparr>))"

datatype probe_effect = OnResult AIProbeResult | ProbeTimeout rat

text \<open>
  \<open>ApScheduled\<close>: a timeout (or the first call of \<open>tick\<close>) is pending; \<open>ApDetecting vh\<close>:
  the tick waits for \<open>model.detect\<close>; \<open>ApHalted\<close>: the tick has ended without a new
  timeout.
\<close>

datatype ap_phase = ApScheduled | ApDetecting nat | ApHalted

record ai_probe =
  ap_disposed :: bool
  ap_state :: ap_phase
  ap_track :: probe_track
  ap_ctx_ok :: bool

text \<open>\<open>drawImage\<close> runs before the detection is awaited and may throw.\<close>

datatype ap_event =
  ApTimerFires video_dims "unit outcome" int
| ApDetectDone "detection list outcome" int
| ApDispose

definition ai_error_result :: "string \<Rightarrow> int \<Rightarrow> AIProbeResult" where
  "ai_error_result msg now =
     \<lparr>r_personCount = 0, r_peopleBoxes = [],
      r_fall = \<lparr>fall_state = FallNone, fall_confidence = 0, fall_reasons = [''ai_error'', msg]\<rparr>,
      r_ts = now, r_ready = True\<rparr>"

definition ap_step ::
  "AIProbeOptions \<Rightarrow> number_text \<Rightarrow> ap_event \<Rightarrow> ai_probe \<Rightarrow> ai_probe \<times> probe_effect list" where
  "ap_step opts fmt ev pr =
     (case (ev, ap_state pr) of
        (ApTimerFires v draw now, ApScheduled) \<Rightarrow>
          if ap_disposed pr then (pr\<lparr>ap_state := ApHalted\<rparr>, [])
          else if vid_w v = 0 \<or> vid_h v = 0 \<or> \<not> ap_ctx_ok pr then
            (pr,
             [OnResult \<lparr>r_personCount = 0, r_peopleBoxes = [],
                        r_fall = \<lparr>fall_state = FallNone, fall_confidence = 0,
                                  fall_reasons = [''video_not_ready'']\<rparr>,
                        r_ts = now, r_ready = False\<rparr>,
              ProbeTimeout (ap_everyMs opts)])
          else (case draw of
                  Threw msg \<Rightarrow> (pr, [OnResult (ai_error_result msg now), ProbeTimeout (ap_everyMs opts)])
                | Returned u \<Rightarrow> (pr\<lparr>ap_state := ApDetecting (vid_h v)\<rparr>, []))
      | (ApDetectDone result now, ApDetecting vh) \<Rightarrow>
          (case result of
             Threw msg \<Rightarrow>
               (pr\<lparr>ap_state := ApScheduled\<rparr>,
                [OnResult (ai_error_result msg now), ProbeTimeout (ap_everyMs opts)])
           | Returned detections \<Rightarrow>
               (let (t', r) = ap_infer opts fmt vh now detections (ap_track pr)
                in (pr\<lparr>ap_state := ApScheduled, ap_track := t'\<rparr>,
                    [OnResult r, ProbeTimeout (ap_everyMs opts)])))
      | (ApDispose, ph) \<Rightarrow> (pr\<lparr>ap_disposed := True\<rparr>, [])
      | _ \<Rightarrow> (pr, []))"

fun ap_run ::
  "AIProbeOptions \<Rightarrow> number_text \<Rightarrow> ap_event list \<Rightarrow> ai_probe \<Rightarrow> ai_probe \<times> probe_effect list list" where
  "ap_run opts fmt [] pr = (pr, [])"
| "ap_run opts fmt (e # es) pr =
     (let (pr1, out1) = ap_step opts fmt e pr;
          (pr2, outs) = ap_run opts fmt es pr1
      in (pr2, out1 # outs))"

text \<open>\<open>attachAIProbe\<close> once the model is loaded, before its first call of \<open>tick\<close>.\<close>

definition attachAIProbe :: "bool \<Rightarrow> ai_probe" where
  "attachAIProbe has_ctx =
     \<lparr>ap_disposed = False, ap_state = ApScheduled,
      ap_track = \<lparr>ap_lastCenterY = None, ap_lastTs = None, ap_lastAspect = None,
                  ap_postDropStillStart = None, ap_cooldownUntil = 0\<rparr>,
      ap_ctx_ok = has_ctx\<rparr>"

subsection \<open>The largest person\<close>

lemma area_cmp: "fsub (area b) (area a) \<le> 0 \<longleftrightarrow> area b \<le> area a"
  by (simp add: fsub_def rnd_le_0_iff)

lemma sorted_insert_area:
  "sorted_wrt (\<lambda>a b. area b \<le> area a) xs \<Longrightarrow>
   sorted_wrt (\<lambda>a b. area b \<le> area a) (insert_by (\<lambda>a b. fsub (area b) (area a)) x xs)"
proof (induction xs)
  case Nil
  then show ?case by simp
next
  case (Cons y ys)
  show ?case
  proof (cases "area y \<le> area x")
    case True
    with Cons.prems show ?thesis by (auto simp: area_cmp)
  next
    case False
    from Cons have "sorted_wrt (\<lambda>a b. area b \<le> area a) (insert_by (\<lambda>a b. fsub (area b) (area a)) x ys)"
      by simp
    with False Cons.prems show ?thesis by (auto simp: area_cmp set_insert_by)
  qed
qed

lemma sorted_js_sort_area:
  "sorted_wrt (\<lambda>a b. area b \<le> area a) (js_sort (\<lambda>a b. fsub (area b) (area a)) xs)"
  by (induction xs) (simp_all add: js_sort_def sorted_insert_area)

lemma set_js_sort: "set (js_sort cmp xs) = set xs"
  using mset_js_sort [of cmp xs] by (metis set_mset_mset)

lemma length_js_sort: "length (js_sort cmp xs) = length xs"
  using mset_js_sort [of cmp xs] by (metis size_mset)

lemma set_people_of:
  "set (people_of ms dets) = to_box ` {d \<in> set dets. det_class d = ''person'' \<and> ms \<le> score_or_0 d}"
  by (simp add: people_of_def set_js_sort)

lemma sorted_people_of: "sorted_wrt (\<lambda>a b. area b \<le> area a) (people_of ms dets)"
  by (simp add: people_of_def sorted_js_sort_area)

lemma length_people_of:
  "length (people_of ms dets) = length (filter (\<lambda>d. det_class d = ''person'' \<and> ms \<le> score_or_0 d) dets)"
  by (simp add: people_of_def length_js_sort)

lemma people_of_largest:
  assumes "people_of ms dets = p # rest"
  shows "(\<exists>d\<in>set dets. det_class d = ''person'' \<and> ms \<le> score_or_0 d \<and> p = to_box d) \<and>
         (\<forall>d\<in>set dets. det_class d = ''person'' \<and> ms \<le> score_or_0 d \<longrightarrow>
            fmul (det_w d) (det_h d) \<le> fmul (box_w p) (box_h p))"
proof
  have "p \<in> set (people_of ms dets)" using assms by simp
  then show "\<exists>d\<in>set dets. det_class d = ''person'' \<and> ms \<le> score_or_0 d \<and> p = to_box d"
    by (auto simp: set_people_of)
  show "\<forall>d\<in>set dets. det_class d = ''person'' \<and> ms \<le> score_or_0 d \<longrightarrow>
            fmul (det_w d) (det_h d) \<le> fmul (box_w p) (box_h p)"
  proof (intro ballI impI)
    fix d assume d: "d \<in> set dets" "det_class d = ''person'' \<and> ms \<le> score_or_0 d"
    then have "to_box d \<in> set (people_of ms dets)" by (auto simp: set_people_of)
    then have "to_box d = p \<or> to_box d \<in> set rest" using assms by auto
    moreover have "\<forall>q\<in>set rest. area q \<le> area p"
      using sorted_people_of [of ms dets] assms by simp
    ultimately have "area (to_box d) \<le> area p" by auto
    then show "fmul (det_w d) (det_h d) \<le> fmul (box_w p) (box_h p)"
      by (simp add: area_def to_box_def)
  qed
qed

subsection \<open>Drop, stillness, cooldown\<close>

definition ready_dims :: "video_dims \<Rightarrow> bool" where
  "ready_dims v = (vid_w v \<noteq> 0 \<and> vid_h v \<noteq> 0 \<and> 2 \<le> vid_ready v)"

lemma tile_risk_on_drop:
  assumes "people_of (minScore (cfg tile)) dets = p # rest"
    and "lastCenterY (track tile) = Some lcy" and "lastTs (track tile) = Some lts"
    and "tile_dyNorm outH p lcy > lit (12 / 100)" and "elapsed now lts < 1400"
  shows "fall_state (fall (snd (tile_infer (cfg tile) fmt outH now dets (track tile)))) = FallRisk \<and>
         (\<exists>r\<in>set (fall_reasons (fall (snd (tile_infer (cfg tile) fmt outH now dets (track tile))))).
            prefix ''drop:'' r)"
  using assms by (simp add: tile_infer_def Let_def tile_drop_def)

lemma small_thresholds: "lit (12 / 1000) \<le> lit (12 / 100)" "lit (1 / 100) \<le> lit (12 / 100)"
  by (simp_all add: dbl_ops rnd_eval)

lemma little_no_drop: "tile_littleMotion outH p lcy ema \<Longrightarrow> \<not> tile_drop outH now p lcy lts"
  using small_thresholds(1) by (auto simp: tile_littleMotion_def tile_drop_def)

lemma tile_critical_on_stillness:
  assumes "people_of (minScore (cfg tile)) dets = p # rest"
    and "lastCenterY (track tile) = Some lcy" and "lastTs (track tile) = Some lts"
    and "postDropStillStart (track tile) = Some since"
    and "\<not> postureFlip (lastAspect (track tile)) p"
    and "tile_littleMotion outH p lcy (emaMotion (track tile))" and "now - since > 900"
  shows "fall_state (fall (snd (tile_infer (cfg tile) fmt outH now dets (track tile)))) = FallCritical \<and>
         (\<exists>r\<in>set (fall_reasons (fall (snd (tile_infer (cfg tile) fmt outH now dets (track tile))))).
            prefix ''still:'' r) \<and>
         cooldownUntil (fst (tile_infer (cfg tile) fmt outH now dets (track tile))) = now + 12000"
  using assms little_no_drop [of outH p lcy "emaMotion (track tile)" now lts]
  by (simp add: tile_infer_def Let_def)

lemma tile_finish_delivers:
  "phase tile = Inferring outH \<Longrightarrow>
   tile_step fmt (InferenceDone (Returned dets) now) (b, tile) =
     ((False, tile\<lparr>phase := Scheduled, track := fst (tile_infer (cfg tile) fmt outH now dets (track tile)),
                  ai := snd (tile_infer (cfg tile) fmt outH now dets (track tile))\<rparr>),
      [SetAi (snd (tile_infer (cfg tile) fmt outH now dets (track tile))),
       SetScene \<lparr>peopleBand = band (snd (tile_infer (cfg tile) fmt outH now dets (track tile))),
                 motion = ai_motion (snd (tile_infer (cfg tile) fmt outH now dets (track tile))),
                 pixelsOk = True\<rparr>,
       SetTimeout (everyMs (cfg tile))])"
  by (simp add: tile_step_def tile_finish_def split_beta)

lemma tile_cooldown_quiet:
  assumes "phase tile = Scheduled" and "tile_ctx_ok (cfg tile)" and "ready_dims v"
    and "t0 < cooldownUntil (track tile)"
  shows "(\<forall>a. SetAi a \<in> set (snd (tile_step fmt (TimerFires v t0) (b, tile))) \<longrightarrow>
            fall_state (fall a) = FallNone) \<and>
         track (snd (fst (tile_step fmt (TimerFires v t0) (b, tile)))) = track tile \<and>
         phase (snd (fst (tile_step fmt (TimerFires v t0) (b, tile)))) \<in> {Scheduled, Halted}"
  using assms by (simp add: tile_step_def tile_tick_start_def ready_dims_def Let_def)

text \<open>A tile that waits for its timer during the cooldown, or has ended.\<close>

definition cooling :: "tile_track \<Rightarrow> tile \<Rightarrow> bool" where
  "cooling tr tile = (phase tile \<in> {Scheduled, Halted} \<and> track tile = tr)"

lemma tile_step_cooling:
  assumes "cooling tr tile" and "\<forall>v t0. ev = TimerFires v t0 \<longrightarrow> t0 < cooldownUntil tr"
  shows "cooling tr (snd (fst (tile_step fmt ev (b, tile)))) \<and>
         (\<forall>a. SetAi a \<in> set (snd (tile_step fmt ev (b, tile))) \<longrightarrow>
              \<not> ready a \<or> fall_state (fall a) = FallNone)"
proof (cases ev)
  case (TimerFires v t0)
  with assms show ?thesis
    by (cases "phase tile") (auto simp: cooling_def tile_step_def tile_tick_start_def Let_def)
next
  case ModelReady
  with assms show ?thesis by (cases "phase tile") (auto simp: cooling_def tile_step_def)
next
  case (InferenceDone result now)
  with assms show ?thesis by (cases "phase tile") (auto simp: cooling_def tile_step_def)
next
  case Cleanup
  with assms show ?thesis by (cases "phase tile") (auto simp: cooling_def tile_step_def)
qed

lemma wall_step_cooling:
  assumes "i < length (tiles w)" and "cooling tr (tiles w ! i)"
    and "\<forall>v t0. e = (i, TimerFires v t0) \<longrightarrow> t0 < cooldownUntil tr"
  shows "i < length (tiles (fst (wall_step fmt e w))) \<and> cooling tr (tiles (fst (wall_step fmt e w)) ! i) \<and>
         (\<forall>a. (i, SetAi a) \<in> set (snd (wall_step fmt e w)) \<longrightarrow>
              \<not> ready a \<or> fall_state (fall a) = FallNone)"
proof -
  obtain j ev where e: "e = (j, ev)" by (cases e)
  show ?thesis
  proof (cases "j < length (tiles w)")
    case False
    with assms e show ?thesis by (simp add: wall_step_def)
  next
    case True
    show ?thesis
    proof (cases "j = i")
      case False
      with True assms e show ?thesis by (auto simp: wall_step_def split_beta)
    next
      case same: True
      from assms(3) e same have "\<forall>v t0. ev = TimerFires v t0 \<longrightarrow> t0 < cooldownUntil tr" by simp
      from tile_step_cooling [OF assms(2) this, of fmt "aiBusy w"] True e same
      show ?thesis by (auto simp: wall_step_def split_beta)
    qed
  qed
qed

lemma wall_run_cooling:
  assumes "i < length (tiles w)" and "cooling tr (tiles w ! i)"
    and "\<forall>e\<in>set evs. \<forall>v t0. e = (i, TimerFires v t0) \<longrightarrow> t0 < cooldownUntil tr"
  shows "cooling tr (tiles (fst (wall_run fmt evs w)) ! i) \<and>
         (\<forall>a. (i, SetAi a) \<in> set (snd (wall_run fmt evs w)) \<longrightarrow>
              \<not> ready a \<or> fall_state (fall a) = FallNone)"
  using assms
proof (induction evs arbitrary: w)
  case Nil
  then show ?case by simp
next
  case (Cons e es)
  from Cons.prems(3) have now: "\<forall>v t0. e = (i, TimerFires v t0) \<longrightarrow> t0 < cooldownUntil tr"
    and later: "\<forall>e\<in>set es. \<forall>v t0. e = (i, TimerFires v t0) \<longrightarrow> t0 < cooldownUntil tr"
    by simp_all
  note s = wall_step_cooling [OF Cons.prems(1,2) now, of fmt]
  from s have 1: "i < length (tiles (fst (wall_step fmt e w)))"
    and 2: "cooling tr (tiles (fst (wall_step fmt e w)) ! i)" by simp_all
  from Cons.IH [OF 1 2 later] s show ?case
    by (auto simp: split_beta)
qed

lemma ap_risk_on_drop:
  assumes "enableFall opts" and "ap_cooldownUntil t \<le> now"
    and "people_of (ap_minScore opts) dets = p # rest"
    and "ap_lastCenterY t = Some lcy" and "ap_lastTs t = Some lts"
    and "ap_dyNorm vh p lcy > lit (12 / 100)" and "elapsed now lts < 1200"
  shows "fall_state (r_fall (snd (ap_infer opts fmt vh now dets t))) = FallRisk \<and>
         (\<exists>r\<in>set (fall_reasons (r_fall (snd (ap_infer opts fmt vh now dets t)))). prefix ''drop:'' r)"
  using assms by (simp add: ap_infer_def Let_def ap_drop_def)

lemma ap_little_no_drop: "ap_littleMotion vh p lcy \<Longrightarrow> \<not> ap_drop vh now p lcy lts"
  using small_thresholds(2) by (auto simp: ap_littleMotion_def ap_drop_def)

lemma ap_critical_on_stillness:
  assumes "enableFall opts" and "ap_cooldownUntil t \<le> now"
    and "people_of (ap_minScore opts) dets = p # rest"
    and "ap_lastCenterY t = Some lcy" and "ap_lastTs t = Some lts"
    and "ap_postDropStillStart t = Some since"
    and "\<not> postureFlip (ap_lastAspect t) p"
    and "ap_littleMotion vh p lcy" and "now - since > 900"
  shows "fall_state (r_fall (snd (ap_infer opts fmt vh now dets t))) = FallCritical \<and>
         (\<exists>r\<in>set (fall_reasons (r_fall (snd (ap_infer opts fmt vh now dets t)))). prefix ''still:'' r) \<and>
         ap_cooldownUntil (fst (ap_infer opts fmt vh now dets t)) = now + 12000"
  using assms ap_little_no_drop [of vh p lcy now lts]
  by (simp add: ap_infer_def Let_def)

lemma ap_infer_cooldown:
  "now < ap_cooldownUntil t \<Longrightarrow>
   fall_state (r_fall (snd (ap_infer opts fmt vh now dets t))) = FallNone \<and>
   fst (ap_infer opts fmt vh now dets t) = t"
  by (simp add: ap_infer_def Let_def split: list.splits)

fun ap_time :: "ap_event \<Rightarrow> int option" where
  "ap_time (ApTimerFires v draw now) = Some now"
| "ap_time (ApDetectDone result now) = Some now"
| "ap_time ApDispose = None"

lemma ap_cooldown_quiet:
  assumes "\<forall>now. ap_time ev = Some now \<longrightarrow> now < ap_cooldownUntil (ap_track pr)"
  shows "(\<forall>r. OnResult r \<in> set (snd (ap_step opts fmt ev pr)) \<longrightarrow> fall_state (r_fall r) = FallNone) \<and>
         ap_track (fst (ap_step opts fmt ev pr)) = ap_track pr"
proof (cases ev)
  case (ApTimerFires v draw now)
  then show ?thesis
    by (cases "ap_state pr"; cases draw) (auto simp: ap_step_def ai_error_result_def)
next
  case (ApDetectDone result now)
  with assms have "now < ap_cooldownUntil (ap_track pr)" by simp
  note c = ap_infer_cooldown [OF this]
  show ?thesis
    using ApDetectDone c
    by (cases "ap_state pr"; cases result)
      (auto simp: ap_step_def ai_error_result_def split_beta)
next
  case ApDispose
  then show ?thesis by (cases "ap_state pr") (simp_all add: ap_step_def)
qed

lemma ap_run_cooldown:
  assumes "\<forall>e\<in>set evs. \<forall>now. ap_time e = Some now \<longrightarrow> now < ap_cooldownUntil (ap_track pr)"
  shows "(\<forall>out\<in>set (snd (ap_run opts fmt evs pr)). \<forall>r. OnResult r \<in> set out \<longrightarrow>
            fall_state (r_fall r) = FallNone) \<and>
         ap_track (fst (ap_run opts fmt evs pr)) = ap_track pr"
  using assms
proof (induction evs arbitrary: pr)
  case Nil
  then show ?case by simp
next
  case (Cons e es)
  from Cons.prems have now: "\<forall>now. ap_time e = Some now \<longrightarrow> now < ap_cooldownUntil (ap_track pr)"
    by simp
  note s = ap_cooldown_quiet [OF now, of opts fmt]
  from s have eq: "ap_track (fst (ap_step opts fmt e pr)) = ap_track pr" by (rule conjunct2)
  have "\<forall>x\<in>set es. \<forall>now. ap_time x = Some now \<longrightarrow>
      now < ap_cooldownUntil (ap_track (fst (ap_step opts fmt e pr)))"
    unfolding eq using Cons.prems by simp
  from Cons.IH [OF this] s show ?case
    by (auto simp: split_beta)
qed

lemma ap_finish_delivers:
  "ap_state pr = ApDetecting vh \<Longrightarrow>
   ap_step opts fmt (ApDetectDone (Returned dets) now) pr =
     (pr\<lparr>ap_state := ApScheduled, ap_track := fst (ap_infer opts fmt vh now dets (ap_track pr))\<rparr>,
      [OnResult (snd (ap_infer opts fmt vh now dets (ap_track pr))), ProbeTimeout (ap_everyMs opts)])"
  by (simp add: ap_step_def split_beta)

definition demo_cfg :: tile_config where
  "demo_cfg = \<lparr>looksLikePatient = True, isWebcam = False, health_ok = True, tile_ctx_ok = True\<rparr>"

definition demo_person :: "rat \<Rightarrow> detection" where
  "demo_person y =
     \<lparr>det_class = ''person'', det_score = Some (7 / 8), det_x = 10, det_y = y, det_w = 40, det_h = 20\<rparr>"

definition demo_dims :: video_dims where
  "demo_dims = \<lparr>vid_w = 640, vid_h = 360, vid_ready = 4\<rparr>"

lemma demo_outH:
  "max 160 (js_round (fdiv (fmul (of_nat (min 360 (vid_w demo_dims))) (of_nat (vid_h demo_dims)))
                          (of_nat (max 1 (vid_w demo_dims))))) = 203"
  by (simp add: demo_dims_def js_round_def dbl_ops rnd_eval)

subsection \<open>The inference slot and detaching\<close>

definition slot_inv :: "wall \<Rightarrow> bool" where
  "slot_inv w = (length (filter inferring (tiles w)) = (if aiBusy w then 1 else 0))"

lemma count_update:
  "i < length xs \<Longrightarrow>
   length (filter P (xs[i := y])) + (if P (xs ! i) then 1 else 0)
     = length (filter P xs) + (if P y then 1 else 0)"
proof (induction xs arbitrary: i)
  case Nil
  then show ?case by simp
next
  case (Cons x xs)
  then show ?case by (cases i) auto
qed

lemma tile_step_slot:
  assumes "tile_step fmt ev (b, t) = ((b', t'), eff)"
  shows "(b' = b \<and> inferring t' = inferring t) \<or>
         (\<not> b \<and> b' \<and> \<not> inferring t \<and> inferring t') \<or>
         (inferring t \<and> \<not> b' \<and> \<not> inferring t')"
proof (cases ev)
  case (TimerFires v t0)
  with assms show ?thesis
    by (cases "phase t")
      (auto simp: tile_step_def tile_tick_start_def Let_def split: if_splits)
next
  case ModelReady
  with assms show ?thesis
    by (cases "phase t") (auto simp: tile_step_def tile_lock_def split: if_splits)
next
  case (InferenceDone result now)
  with assms show ?thesis
    by (cases "phase t"; cases result)
      (auto simp: tile_step_def tile_finish_def split_beta)
next
  case Cleanup
  with assms show ?thesis
    by (cases "phase t") (auto simp: tile_step_def)
qed

lemma wall_step_slot: "slot_inv w \<Longrightarrow> slot_inv (fst (wall_step fmt e w))"
proof -
  assume inv: "slot_inv w"
  obtain i ev where e: "e = (i, ev)" by (cases e)
  show ?thesis
  proof (cases "i < length (tiles w)")
    case False
    with inv e show ?thesis by (simp add: wall_step_def)
  next
    case True
    obtain b' t' eff where st: "tile_step fmt ev (aiBusy w, tiles w ! i) = ((b', t'), eff)"
      by (metis prod.exhaust)
    have w': "fst (wall_step fmt e w) = \<lparr>aiBusy = b', tiles = (tiles w)[i := t']\<rparr>"
      using True e st by (simp add: wall_step_def)
    note c = count_update [OF True, of inferring t']
    from tile_step_slot [OF st] inv c show ?thesis
      unfolding w' slot_inv_def
      by (auto split: if_splits)
  qed
qed

lemma wall_run_slot: "slot_inv w \<Longrightarrow> slot_inv (fst (wall_run fmt evs w))"
proof (induction evs arbitrary: w)
  case Nil
  then show ?case by simp
next
  case (Cons e es)
  from Cons.IH [OF wall_step_slot [OF Cons.prems, of fmt e]]
  show ?case by (simp add: split_beta)
qed

lemma initial_slot: "slot_inv (initial_wall cs)"
  by (simp add: slot_inv_def initial_wall_def attach_tile_def filter_empty_conv)


text \<open>
  Claim C9. Whatever the tiles do in whatever order, at most one of them is inside the
  inference, and the flag \<open>aiBusy\<close> is set exactly while one is. A tick that finds the
  flag set starts no inference, leaves its tracking variables and its delivered state as
  they are and asks for its next timeout; a tick that finds it clear sets it. The end of
  the inference clears the flag, whether the detection returned or threw.
\<close>

theorem one_inference_at_a_time:
  "length (filter inferring (tiles (fst (wall_run fmt evs (initial_wall cs))))) \<le> 1 \<and>
   (aiBusy (fst (wall_run fmt evs (initial_wall cs))) \<longleftrightarrow>
      (\<exists>t\<in>set (tiles (fst (wall_run fmt evs (initial_wall cs)))). inferring t)) \<and>
   (phase tile = AwaitingModel outH \<longrightarrow>
      tile_step fmt ModelReady (True, tile)
        = ((True, tile\<lparr>phase := Scheduled\<rparr>), [SetTimeout (everyMs (cfg tile))]) \<and>
      tile_step fmt ModelReady (False, tile) = ((True, tile\<lparr>phase := Inferring outH\<rparr>), [])) \<and>
   (phase tile = Inferring outH \<longrightarrow>
      \<not> fst (fst (tile_step fmt (InferenceDone result now) (b, tile))) \<and>
      \<not> inferring (snd (fst (tile_step fmt (InferenceDone result now) (b, tile)))))"
proof (intro conjI impI)
  let ?w = "fst (wall_run fmt evs (initial_wall cs))"
  have inv: "length (filter inferring (tiles ?w)) = (if aiBusy ?w then 1 else 0)"
    using wall_run_slot [OF initial_slot, of fmt evs cs] by (simp add: slot_inv_def)
  from inv show "length (filter inferring (tiles ?w)) \<le> 1"
    by (simp split: if_splits)
  have "(\<exists>t\<in>set (tiles ?w). inferring t) \<longleftrightarrow> filter inferring (tiles ?w) \<noteq> []"
    by (simp add: filter_empty_conv)
  also have "\<dots> \<longleftrightarrow> aiBusy ?w"
    using inv by (cases "filter inferring (tiles ?w)") (simp_all split: if_splits)
  finally show "aiBusy ?w \<longleftrightarrow> (\<exists>t\<in>set (tiles ?w). inferring t)" by simp
next
  assume "phase tile = AwaitingModel outH"
  then show "tile_step fmt ModelReady (True, tile)
        = ((True, tile\<lparr>phase := Scheduled\<rparr>), [SetTimeout (everyMs (cfg tile))])"
    and "tile_step fmt ModelReady (False, tile) = ((True, tile\<lparr>phase := Inferring outH\<rparr>), [])"
    by (simp_all add: tile_step_def tile_lock_def)
next
  assume "phase tile = Inferring outH"
  then show "\<not> fst (fst (tile_step fmt (InferenceDone result now) (b, tile)))"
    and "\<not> inferring (snd (fst (tile_step fmt (InferenceDone result now) (b, tile))))"
    by (cases result; simp add: tile_step_def tile_finish_def split_beta)+
qed

definition demo_wall_events :: "(nat \<times> tile_event) list" where
  "demo_wall_events =
     [(0, TimerFires demo_dims 100), (1, TimerFires demo_dims 100),
      (0, ModelReady), (1, ModelReady)]"

theorem one_inference_at_a_time_witness:
  "map phase (tiles (fst (wall_run demo_text demo_wall_events (initial_wall [demo_cfg, demo_cfg]))))
     = [Inferring 203, Scheduled] \<and>
   aiBusy (fst (wall_run demo_text demo_wall_events (initial_wall [demo_cfg, demo_cfg]))) \<and>
   tile_step demo_text ModelReady (True, (attach_tile demo_cfg)\<lparr>phase := AwaitingModel 203\<rparr>)
     = ((True, attach_tile demo_cfg), [SetTimeout 550]) \<and>
   \<not> fst (fst (tile_step demo_text (InferenceDone (Threw ''lost context'') 900)
                  (True, (attach_tile demo_cfg)\<lparr>phase := Inferring 203\<rparr>)))"
proof -
  let ?w = "fst (wall_run demo_text demo_wall_events (initial_wall [demo_cfg, demo_cfg]))"
  have run: "map phase (tiles ?w) = [Inferring 203, Scheduled]"
    by (simp add: demo_wall_events_def initial_wall_def wall_step_def tile_step_def
        tile_tick_start_def tile_lock_def attach_tile_def demo_cfg_def demo_dims_def
        initial_track_def js_round_def dbl_ops rnd_eval)
  from run have "\<exists>t\<in>set (tiles ?w). inferring t"
    by (cases "tiles ?w") auto
  with one_inference_at_a_time [of demo_text demo_wall_events "[demo_cfg, demo_cfg]"]
  have busy: "aiBusy ?w" by blast
  let ?t1 = "(attach_tile demo_cfg)\<lparr>phase := AwaitingModel 203\<rparr>"
  have h1: "phase ?t1 = AwaitingModel 203" by simp
  have "tile_step demo_text ModelReady (True, ?t1)
      = ((True, ?t1\<lparr>phase := Scheduled\<rparr>), [SetTimeout (everyMs (cfg ?t1))])"
    by (rule one_inference_at_a_time [where tile = ?t1 and outH = 203 and fmt = demo_text,
          THEN conjunct2, THEN conjunct2, THEN conjunct1, THEN mp, OF h1, THEN conjunct1])
  then have retry: "tile_step demo_text ModelReady (True, ?t1)
      = ((True, attach_tile demo_cfg), [SetTimeout 550])"
    by (simp add: attach_tile_def everyMs_def demo_cfg_def)
  let ?t2 = "(attach_tile demo_cfg)\<lparr>phase := Inferring 203\<rparr>"
  have h2: "phase ?t2 = Inferring 203" by simp
  have release: "\<not> fst (fst (tile_step demo_text (InferenceDone (Threw ''lost context'') 900) (True, ?t2)))"
    by (rule one_inference_at_a_time [where tile = ?t2 and outH = 203 and fmt = demo_text
          and result = "Threw ''lost context''" and now = 900 and b = True,
          THEN conjunct2, THEN conjunct2, THEN conjunct2, THEN mp, OF h2, THEN conjunct1])
  from run busy retry release show ?thesis by blast
qed

lemma probe_run_after_detach: "disposed p \<Longrightarrow> probe_run opts fmt evs p = (p, [])"
  by (induction evs) (auto simp: split_beta)

text \<open>
  Claim C8 at a concrete input. The stand-alone probe: the timer fires, the detach handle
  runs while the detection is awaited, the detection returns: the result is delivered to
  \<open>onResult\<close> after the detach. The tile: the same with the effect's cleanup, which is
  followed by \<open>setAi\<close> and \<open>setScene\<close>. (The health monitor delivers nothing after its
  detach: \<open>probe_step\<close> on a disposed attachment.)
\<close>

theorem result_delivered_after_detach:
  "map (\<lambda>eff. length (filter (\<lambda>e. case e of OnResult r \<Rightarrow> True | ProbeTimeout t \<Rightarrow> False) eff))
     (snd (ap_run default_ai_options demo_text
        [ApTimerFires demo_dims (Returned ()) 100, ApDispose, ApDetectDone (Returned [demo_person 90]) 400]
        (attachAIProbe True))) = [0, 0, 1] \<and>
   ap_disposed (fst (ap_run default_ai_options demo_text
        [ApTimerFires demo_dims (Returned ()) 100, ApDispose] (attachAIProbe True))) \<and>
   map (\<lambda>e. case e of (i, SetAi a) \<Rightarrow> ''setAi'' | (i, SetScene sc) \<Rightarrow> ''setScene''
                     | (i, SetTimeout t) \<Rightarrow> ''setTimeout'')
     (snd (wall_run demo_text
        [(0, TimerFires demo_dims 100), (0, ModelReady), (0, Cleanup),
         (0, InferenceDone (Returned [demo_person 90]) 400)]
        (initial_wall [demo_cfg]))) = [''setAi'', ''setScene'', ''setTimeout''] \<and>
   map stopped (tiles (fst (wall_run demo_text
        [(0, TimerFires demo_dims 100), (0, ModelReady), (0, Cleanup)]
        (initial_wall [demo_cfg])))) = [True]"
  by (simp add: ap_step_def attachAIProbe_def split_beta
      initial_wall_def wall_step_def tile_step_def tile_tick_start_def tile_lock_def
      tile_finish_def attach_tile_def demo_cfg_def demo_dims_def initial_track_def js_round_def
      dbl_ops rnd_eval)

end
